theory Spec2Isabelle
  imports Main "HOL-Library.Word"
begin

section \<open>Data model\<close>

text \<open>
  The operator console \<^verbatim>\<open>apps/ara/svc_power/svc_power.c\<close> runs on the 32-bit SVC
  (ILP32: \<^verbatim>\<open>int\<close>, \<^verbatim>\<open>long\<close> and \<^verbatim>\<open>void *\<close> are all 32 bits wide), so the
  casts \<^verbatim>\<open>(void*)enable\<close> and \<^verbatim>\<open>(int)context\<close> keep the value and a C
  \<^verbatim>\<open>int\<close> is a 32-bit word, read as two's complement by \<open>sint\<close>.
\<close>

type_synonym cint = "32 word"

text \<open>\<^verbatim>\<open>struct vreg_data\<close>: one rail switch (VregRail of the data model).\<close>

record vreg_data =
  gpio :: nat
  hold_time :: nat
  active_high :: bool
  def_val :: bool

text \<open>
  \<^verbatim>\<open>struct vreg\<close> (VregGroup). \<^verbatim>\<open>vregs\<close> is the pointer to the array of rails:
  \<open>None\<close> is NULL and \<open>Some rs\<close> is an array holding the rails \<open>rs\<close> in
  configured order, which may be empty. \<^verbatim>\<open>nr_vregs\<close> is the number of rails of the
  array, 0 for NULL. \<^verbatim>\<open>power_enabled\<close> is the last commanded state of the group.
  \<^verbatim>\<open>use_count\<close> is an integer, so that "never negative" is a property to prove and
  not a property of the type.
\<close>

record vreg =
  vreg_name :: string
  vregs :: "vreg_data list option"
  power_enabled :: bool
  use_count :: int

definition rails :: "vreg \<Rightarrow> vreg_data list" where
  "rails v = (case vregs v of None \<Rightarrow> [] | Some rs \<Rightarrow> rs)"

definition nr_vregs :: "vreg \<Rightarrow> nat" where
  "nr_vregs v = length (rails v)"

datatype wd_debounce_state =
    WD_ST_INVALID
  | WD_ST_INACTIVE_DEBOUNCE
  | WD_ST_ACTIVE_DEBOUNCE
  | WD_ST_INACTIVE_STABLE
  | WD_ST_ACTIVE_STABLE

datatype hotplug_state =
    HOTPLUG_ST_UNKNOWN
  | HOTPLUG_ST_PLUGGED
  | HOTPLUG_ST_UNPLUGGED

datatype ara_iface_order =
    ARA_IFACE_ORDER_UNKNOWN
  | ARA_IFACE_ORDER_PRIMARY
  | ARA_IFACE_ORDER_SECONDARY

text \<open>
  \<^verbatim>\<open>enum ara_iface_type\<close>: svc\_power.c names one enumerator,
  \<^verbatim>\<open>ARA_IFACE_TYPE_MODULE_PORT2\<close>; every other enumerator of interface.h is
  \<open>ARA_IFACE_TYPE_OTHER k\<close>.
\<close>

datatype ara_iface_type =
    ARA_IFACE_TYPE_MODULE_PORT2
  | ARA_IFACE_TYPE_OTHER nat

text \<open>\<^verbatim>\<open>iface->detect_in\<close>: the wake/detect line and its debounce state.\<close>

record wd_data =
  wd_gpio :: nat
  polarity :: bool
  db_state :: wd_debounce_state
  last_state :: wd_debounce_state

text \<open>
  \<^verbatim>\<open>struct interface\<close>, with the fields svc\_power.c reads. \<open>switch_portid = None\<close>
  is \<^verbatim>\<open>INVALID_PORT\<close>.
\<close>

record interface =
  if_name :: string
  switch_portid :: "nat option"
  vsys_vreg :: vreg
  refclk_vreg :: vreg
  if_type :: ara_iface_type
  detect_in :: wd_data
  wake_gpio :: nat
  if_order :: ara_iface_order

section \<open>Voltage regulator groups\<close>

text \<open>
  The GPIO lines the rails hang on: the level each line is driven to, the lines whose
  writes do not complete, and the writes and waits made so far, in order.
\<close>

datatype hw_event = Gpio_write nat bool | Udelay nat

record gpio_hw =
  level :: "nat \<Rightarrow> bool"
  faulty :: "nat \<Rightarrow> bool"
  hw_log :: "hw_event list"

datatype error = NotFound | Unsupported | MisuseError | HardwareFault

definition gpio_write :: "nat \<Rightarrow> bool \<Rightarrow> gpio_hw \<Rightarrow> bool \<times> gpio_hw" where
  "gpio_write pin v h =
     (if faulty h pin then (False, h)
      else (True, h\<lparr>level := (level h)(pin := v), hw_log := hw_log h @ [Gpio_write pin v]\<rparr>))"

definition udelay :: "nat \<Rightarrow> gpio_hw \<Rightarrow> gpio_hw" where
  "udelay us h = h\<lparr>hw_log := hw_log h @ [Udelay us]\<rparr>"

text \<open>
  Modelled from the spec: the rail sequencing of section 4.1 (the regulator code is not
  under src/). Enabling drives every rail to its active level in configured order and
  waits the rail's hold time before the next one; the result is False as soon as a
  write does not complete.
\<close>

fun rails_on :: "vreg_data list \<Rightarrow> gpio_hw \<Rightarrow> bool \<times> gpio_hw" where
  "rails_on [] h = (True, h)"
| "rails_on (r # rs) h =
     (case gpio_write (gpio r) (active_high r) h of
        (False, h') \<Rightarrow> (False, h')
      | (True, h') \<Rightarrow> rails_on rs (udelay (hold_time r) h'))"

text \<open>
  Modelled from the spec: disabling drives the rails it is given to their inactive
  level (the caller passes them in reverse order).
\<close>

fun rails_off :: "vreg_data list \<Rightarrow> gpio_hw \<Rightarrow> bool \<times> gpio_hw" where
  "rails_off [] h = (True, h)"
| "rails_off (r # rs) h =
     (case gpio_write (gpio r) (\<not> active_high r) h of
        (False, h') \<Rightarrow> (False, h')
      | (True, h') \<Rightarrow> rails_off rs h')"

text \<open>
  Modelled from the spec: \<open>enable(group)\<close> of section 4.1 (absent from src/). It
  increments \<open>use_count\<close>; on the transition 0 to 1 it drives the rails in configured
  order and sets \<open>power_enabled\<close>, the last commanded state of the group (section 3),
  so that \<open>power_enabled = (use_count > 0)\<close> holds after every call, as section 3
  states it. A rail write that does not complete is reported as \<open>HardwareFault\<close>.
  The result is the error, if any, and the new group and lines.
\<close>

definition enable :: "vreg \<Rightarrow> gpio_hw \<Rightarrow> error option \<times> vreg \<times> gpio_hw" where
  "enable g h =
     (let g1 = g\<lparr>use_count := use_count g + 1\<rparr> in
      if use_count g1 = 1 then
        (case rails_on (rails g1) h of
           (ok, h') \<Rightarrow>
             (if ok then None else Some HardwareFault, g1\<lparr>power_enabled := True\<rparr>, h'))
      else (None, g1, h))"

text \<open>
  Modelled from the spec: \<open>disable(group)\<close> of section 4.1 (absent from src/). It
  decrements \<open>use_count\<close> if it is positive; on the transition 1 to 0 it drives the
  rails inactive in reverse order and clears \<open>power_enabled\<close>, the last commanded
  state; a rail write that does not complete is reported as \<open>HardwareFault\<close>. At
  \<open>use_count = 0\<close> it reports \<open>MisuseError\<close> and changes nothing.
\<close>

definition disable :: "vreg \<Rightarrow> gpio_hw \<Rightarrow> error option \<times> vreg \<times> gpio_hw" where
  "disable g h =
     (if 0 < use_count g then
        (let g1 = g\<lparr>use_count := use_count g - 1\<rparr> in
         if use_count g1 = 0 then
           (case rails_off (rev (rails g1)) h of
              (ok, h') \<Rightarrow>
                (if ok then None else Some HardwareFault, g1\<lparr>power_enabled := False\<rparr>, h'))
         else (None, g1, h))
      else (Some MisuseError, g, h))"

text \<open>A sequence of calls on one group, with the result of each call.\<close>

datatype vreg_call = Enable | Disable

fun vreg_calls :: "vreg_call list \<Rightarrow> vreg \<Rightarrow> gpio_hw \<Rightarrow> error option list \<times> vreg \<times> gpio_hw" where
  "vreg_calls [] g h = ([], g, h)"
| "vreg_calls (c # cs) g h =
     (case (case c of Enable \<Rightarrow> enable g h | Disable \<Rightarrow> disable g h) of
        (r, g', h') \<Rightarrow>
          (case vreg_calls cs g' h' of (rs, g'', h'') \<Rightarrow> (r # rs, g'', h'')))"

definition nr_calls :: "vreg_call \<Rightarrow> vreg_call list \<Rightarrow> int" where
  "nr_calls c cs = int (length (filter (\<lambda>x. x = c) cs))"

text \<open>The number of calls of a sequence that were refused with \<open>MisuseError\<close>.\<close>

definition nr_refused :: "error option list \<Rightarrow> int" where
  "nr_refused rs = int (length (filter (\<lambda>r. r = Some MisuseError) rs))"

text \<open>A group at reset with two rails, on lines that all work.\<close>

definition vreg_sample :: vreg where
  "vreg_sample =
     \<lparr>vreg_name = ''vsys'',
      vregs = Some [\<lparr>gpio = 4, hold_time = 100, active_high = True, def_val = False\<rparr>,
                    \<lparr>gpio = 5, hold_time = 0, active_high = False, def_val = True\<rparr>],
      power_enabled = False, use_count = 0\<rparr>"

definition hw_sample :: gpio_hw where
  "hw_sample = \<lparr>level = (\<lambda>_. False), faulty = (\<lambda>_. False), hw_log = []\<rparr>"

text \<open>The same lines, except that writes to line 5 do not complete.\<close>

definition hw_faulty_sample :: gpio_hw where
  "hw_faulty_sample = \<lparr>level = (\<lambda>_. False), faulty = (\<lambda>pin. pin = 5), hw_log = []\<rparr>"

section \<open>Hotplug classifier\<close>

text \<open>
  Modelled from the spec: the classifier of section 4.3 (absent from src/), a pure
  function of the debounce state.
\<close>

fun hotplug_state_of :: "wd_debounce_state \<Rightarrow> hotplug_state" where
  "hotplug_state_of WD_ST_INACTIVE_STABLE = HOTPLUG_ST_UNPLUGGED"
| "hotplug_state_of WD_ST_ACTIVE_STABLE = HOTPLUG_ST_PLUGGED"
| "hotplug_state_of _ = HOTPLUG_ST_UNKNOWN"

text \<open>
  Modelled from the spec: \<^verbatim>\<open>interface_get_hotplug_state_atomic\<close> (interface.c is not
  under src/) classifies the current debounce state of the interface's detect line.
\<close>

definition interface_get_hotplug_state_atomic :: "interface \<Rightarrow> hotplug_state" where
  "interface_get_hotplug_state_atomic iface = hotplug_state_of (db_state (detect_in iface))"

section \<open>The operator console: svc\_power.c\<close>

subsection \<open>What the console calls\<close>

text \<open>
  The board support code behind interface.h, tsb\_switch.h and the C library is not in
  svc\_power.c; the console is modelled over any implementation of it. A primitive
  gets the interface it is handed and the hardware, and returns its result code with
  both as it leaves them.
\<close>

record 'h board =
  PROGNAME :: string
  strtol_prim :: "string \<Rightarrow> cint"
  power_on_prim :: "interface \<Rightarrow> 'h \<Rightarrow> cint \<times> interface \<times> 'h"
  power_off_prim :: "interface \<Rightarrow> 'h \<Rightarrow> cint \<times> interface \<times> 'h"
  wakeout_prim :: "interface \<Rightarrow> bool \<Rightarrow> cint \<Rightarrow> 'h \<Rightarrow> cint \<times> interface \<times> 'h"
  module_port_prim :: "interface \<Rightarrow> bool"
  id_by_portid_prim :: "nat \<Rightarrow> cint"

text \<open>A call of \<^verbatim>\<open>printf\<close>: the format string and the arguments.\<close>

datatype printf_arg = Arg_s string | Arg_u nat | Arg_d int | Arg_c char

datatype printed = Printf string "printf_arg list"

text \<open>A call into interface.c that may change an interface, by the index of the interface.\<close>

datatype call =
    Power_on nat
  | Power_off nat
  | Generate_wakeout nat bool cint

text \<open>
  The state the console runs in: the board's interface table in registration order
  (a \<^verbatim>\<open>struct interface *\<close> is an index into it; the table is set up once at
  initialisation and keeps its length), the hardware, the static
  \<^verbatim>\<open>wakeout_length_default\<close>, what has been printed, and the calls made into
  interface.c so far.
\<close>

record 'h sys =
  interfaces :: "interface list"
  hw :: 'h
  wakeout_length_default :: cint
  console :: "printed list"
  calls :: "call list"

text \<open>\<^verbatim>\<open>static int wakeout_length_default = -1;\<close>\<close>

definition init_sys :: "interface list \<Rightarrow> 'h \<Rightarrow> 'h sys" where
  "init_sys ifs h =
     \<lparr>interfaces = ifs, hw = h, wakeout_length_default = - 1, console = [], calls = []\<rparr>"

datatype rcode = Rc cint | Indeterminate

datatype outcome = Return rcode | Exit cint

definition EINVAL :: cint where "EINVAL = 22"
definition EXIT_SUCCESS :: cint where "EXIT_SUCCESS = 0"
definition EXIT_FAILURE :: cint where "EXIT_FAILURE = 1"

definition nl :: string where "nl = [CHR 0x0A]"
definition tab :: string where "tab = [CHR 0x09]"
definition dquote :: string where "dquote = [CHR 0x22]"

definition print :: "printed list \<Rightarrow> 'h sys \<Rightarrow> 'h sys" where
  "print out s = s\<lparr>console := console s @ out\<rparr>"

text \<open>
  Modelled from the spec: \<^verbatim>\<open>interface_get_by_name\<close> (interface.c is not under
  src/), the exact, case-sensitive match of section 4.5: the first interface of the
  table with that name, or NULL.
\<close>

fun name_index :: "interface list \<Rightarrow> string \<Rightarrow> nat option" where
  "name_index [] n = None"
| "name_index (x # xs) n =
     (if if_name x = n then Some 0 else map_option Suc (name_index xs n))"

definition interface_get_by_name :: "'h sys \<Rightarrow> string \<Rightarrow> nat option" where
  "interface_get_by_name s n = name_index (interfaces s) n"

text \<open>
  The three calls that may change an interface: the primitive runs on the interface
  the pointer names and on the hardware, and the call is recorded.
\<close>

definition interface_power_on_atomic :: "'h board \<Rightarrow> nat \<Rightarrow> 'h sys \<Rightarrow> cint \<times> 'h sys" where
  "interface_power_on_atomic B i s =
     (case power_on_prim B (interfaces s ! i) (hw s) of
        (rc, iface', h') \<Rightarrow>
          (rc, s\<lparr>interfaces := (interfaces s)[i := iface'], hw := h',
                 calls := calls s @ [Power_on i]\<rparr>))"

definition interface_power_off_atomic :: "'h board \<Rightarrow> nat \<Rightarrow> 'h sys \<Rightarrow> cint \<times> 'h sys" where
  "interface_power_off_atomic B i s =
     (case power_off_prim B (interfaces s ! i) (hw s) of
        (rc, iface', h') \<Rightarrow>
          (rc, s\<lparr>interfaces := (interfaces s)[i := iface'], hw := h',
                 calls := calls s @ [Power_off i]\<rparr>))"

definition interface_generate_wakeout_atomic ::
  "'h board \<Rightarrow> nat \<Rightarrow> bool \<Rightarrow> cint \<Rightarrow> 'h sys \<Rightarrow> cint \<times> 'h sys" where
  "interface_generate_wakeout_atomic B i assert len s =
     (case wakeout_prim B (interfaces s ! i) assert len (hw s) of
        (rc, iface', h') \<Rightarrow>
          (rc, s\<lparr>interfaces := (interfaces s)[i := iface'], hw := h',
                 calls := calls s @ [Generate_wakeout i assert len]\<rparr>))"

subsection \<open>Helpers\<close>

record command =
  shortc :: char
  longc :: string
  help_text :: string

definition commands :: "command list" where
  "commands =
     [\<lparr>shortc = CHR ''h'', longc = ''help'', help_text = ''print this usage and exit''\<rparr>,
      \<lparr>shortc = CHR ''p'', longc = ''power'', help_text = ''get/set interface power''\<rparr>,
      \<lparr>shortc = CHR ''w'', longc = ''wakeout'', help_text = ''pulse WAKEOUT''\<rparr>,
      \<lparr>shortc = CHR ''l'', longc = ''wakeout_length'',
       help_text = ''get/set WAKEOUT pulse duration''\<rparr>,
      \<lparr>shortc = CHR ''d'', longc = ''dumpstate'', help_text = ''dump system power state''\<rparr>]"

definition HELP :: nat where "HELP = 0"
definition SET_POWER :: nat where "SET_POWER = 1"
definition WAKEOUT :: nat where "WAKEOUT = 2"
definition WAKEOUT_LENGTH :: nat where "WAKEOUT_LENGTH = 3"
definition DUMPSTATE :: nat where "DUMPSTATE = 4"

text \<open>\<^verbatim>\<open>print_interface_usage\<close>: what it prints for a table.\<close>

definition iface_usage_lines :: "interface \<Rightarrow> printed list" where
  "iface_usage_lines iface =
     [Printf ''  %s'' [Arg_s (if_name iface)],
      (case switch_portid iface of
         Some p \<Rightarrow> Printf (tab @ ''(switch port %d)'' @ nl) [Arg_d (sint (word_of_nat p :: cint))]
       | None \<Rightarrow> Printf (tab @ ''(no switch port)'' @ nl) [])]"

definition print_interface_usage :: "'h sys \<Rightarrow> 'h sys" where
  "print_interface_usage s =
     print ([Printf (nl @ ''Legal <interface> values on this board:'' @ nl) [],
             Printf (''  '' @ dquote @ ''all'' @ dquote @ '' -- all interfaces'' @ nl) []]
            @ concat (map iface_usage_lines (interfaces s))) s"

text \<open>\<^verbatim>\<open>usage\<close> does not return: it prints the commands and exits.\<close>

definition usage :: "'h board \<Rightarrow> cint \<Rightarrow> 'h sys \<Rightarrow> outcome \<times> 'h sys" where
  "usage B exit_status s =
     (Exit exit_status,
      print (Printf (''%s: usage:'' @ nl) [Arg_s (PROGNAME B)]
             # map (\<lambda>c. Printf (''    %s [%c|%s]: %s'' @ nl)
                       [Arg_s (PROGNAME B), Arg_c (shortc c), Arg_s (longc c), Arg_s (help_text c)])
                 commands) s)"

text \<open>
  \<^verbatim>\<open>interface_foreach\<close> with the body of \<^verbatim>\<open>do_to_iface\<close>: the interfaces in
  table order, \<^verbatim>\<open>rc\<close> assigned by every call and the loop left at the first nonzero
  one. \<^verbatim>\<open>rc\<close> is passed along, since the C variable has no initial value.
\<close>

fun foreach_do ::
  "(nat \<Rightarrow> cint \<Rightarrow> 's \<Rightarrow> cint \<times> 's) \<Rightarrow> cint \<Rightarrow> nat list \<Rightarrow> rcode \<Rightarrow> 's \<Rightarrow> rcode \<times> 's" where
  "foreach_do iface_func context [] rc s = (rc, s)"
| "foreach_do iface_func context (i # is) rc s =
     (case iface_func i context s of
        (rc', s') \<Rightarrow>
          if rc' \<noteq> 0 then (Rc rc', s')
          else foreach_do iface_func context is (Rc rc') s')"

definition do_to_iface ::
  "string \<Rightarrow> (nat \<Rightarrow> cint \<Rightarrow> 'h sys \<Rightarrow> cint \<times> 'h sys) \<Rightarrow> cint \<Rightarrow> 'h sys \<Rightarrow> rcode \<times> 'h sys" where
  "do_to_iface iface_name iface_func context s =
     (if iface_name = ''all'' \<or> iface_name = ''ALL'' then
        foreach_do iface_func context [0..<length (interfaces s)] Indeterminate s
      else
        (case interface_get_by_name s iface_name of
           None \<Rightarrow>
             (Rc (- EINVAL),
              print_interface_usage
                (print [Printf (''Invalid interface: %s'' @ nl) [Arg_s iface_name]] s))
         | Some iface \<Rightarrow>
             (case iface_func iface context s of (rc, s') \<Rightarrow> (Rc rc, s'))))"

definition returning :: "rcode \<times> 's \<Rightarrow> outcome \<times> 's" where
  "returning r = (Return (fst r), snd r)"

subsection \<open>Usage\<close>

definition cmd_usage :: "'h board \<Rightarrow> string list \<Rightarrow> 'h sys \<Rightarrow> outcome \<times> 'h sys" where
  "cmd_usage B argv s = usage B EXIT_SUCCESS s"

subsection \<open>Interface power control\<close>

definition set_power_usage :: "'h board \<Rightarrow> cint \<Rightarrow> 'h sys \<Rightarrow> outcome \<times> 'h sys" where
  "set_power_usage B exit_status s =
     (Exit exit_status,
      print_interface_usage
        (print [Printf (''%s %s <interface> <0|1>: usage:'' @ nl)
                  [Arg_s (PROGNAME B), Arg_s (longc (commands ! SET_POWER))],
                Printf (''    <interface>: Interface to set power state of.'' @ nl) [],
                Printf (''    <0|1>: specify '' @ dquote @ ''0'' @ dquote @ '' to power off, ''
                        @ dquote @ ''1'' @ dquote @ '' to power on.'' @ nl) [],
                Printf nl [],
                Printf (''NOTE: This may interfere with the power subsystem's'' @ nl
                        @ ''      refcounting. Use only if you know what you're doing.'' @ nl) []]
           s))"

definition set_power_func :: "'h board \<Rightarrow> nat \<Rightarrow> cint \<Rightarrow> 'h sys \<Rightarrow> cint \<times> 'h sys" where
  "set_power_func B iface context s =
     (let enable = context in
      if enable \<noteq> 0 then interface_power_on_atomic B iface s
      else interface_power_off_atomic B iface s)"

definition cmd_set_power :: "'h board \<Rightarrow> string list \<Rightarrow> 'h sys \<Rightarrow> outcome \<times> 'h sys" where
  "cmd_set_power B argv s =
     (if length argv \<noteq> 4 then set_power_usage B EXIT_FAILURE s
      else
        (let enable = strtol_prim B (argv ! 3); context = enable
         in returning (do_to_iface (argv ! 2) (set_power_func B) context s)))"

subsection \<open>Wake out\<close>

definition wakeout_usage :: "'h board \<Rightarrow> cint \<Rightarrow> 'h sys \<Rightarrow> outcome \<times> 'h sys" where
  "wakeout_usage B exit_status s =
     (Exit exit_status,
      print_interface_usage
        (print [Printf (''%s %s <interface> [<length>]: usage:'' @ nl)
                  [Arg_s (PROGNAME B), Arg_s (longc (commands ! WAKEOUT))],
                Printf (''   <interface>: Interface to send WAKEOUT to.'' @ nl) [],
                Printf (''   <length>: Pulse length in us.'' @ nl) []]
           s))"

definition wakeout_func :: "'h board \<Rightarrow> nat \<Rightarrow> cint \<Rightarrow> 'h sys \<Rightarrow> cint \<times> 'h sys" where
  "wakeout_func B iface context s =
     (let length = context in interface_generate_wakeout_atomic B iface False length s)"

definition cmd_wakeout :: "'h board \<Rightarrow> string list \<Rightarrow> 'h sys \<Rightarrow> outcome \<times> 'h sys" where
  "cmd_wakeout B argv s =
     (let length0 = wakeout_length_default s in
      if length argv \<noteq> 3 \<and> length argv \<noteq> 4 then wakeout_usage B EXIT_FAILURE s
      else
        (let length1 = (if length argv = 4 then strtol_prim B (argv ! 3) else length0)
         in returning (do_to_iface (argv ! 2) (wakeout_func B) length1 s)))"

subsection \<open>Get/set the default wake out pulse duration\<close>

definition wakeout_length_usage :: "'h board \<Rightarrow> cint \<Rightarrow> 'h sys \<Rightarrow> outcome \<times> 'h sys" where
  "wakeout_length_usage B exit_status s =
     (Exit exit_status,
      print [Printf (''%s %s [<length>]: usage:'' @ nl)
               [Arg_s (PROGNAME B), Arg_s (longc (commands ! WAKEOUT_LENGTH))],
             Printf (''   <length>: Pulse duration in us. -1 to use the default hardcoded value''
                     @ nl) []]
        s)"

definition cmd_wakeout_length :: "'h board \<Rightarrow> string list \<Rightarrow> 'h sys \<Rightarrow> outcome \<times> 'h sys" where
  "cmd_wakeout_length B argv s =
     (if length argv \<noteq> 2 \<and> length argv \<noteq> 3 then wakeout_length_usage B EXIT_FAILURE s
      else
        (let s1 = (if length argv = 3
                   then s\<lparr>wakeout_length_default := strtol_prim B (argv ! 2)\<rparr> else s)
         in (Return (Rc 0),
             print [Printf (''%s %s: WAKEOUT pulse length is set to %d'' @ nl)
                      [Arg_s (argv ! 0), Arg_s (argv ! 1),
                       Arg_d (sint (wakeout_length_default s1))]] s1)))"

subsection \<open>Dump system state\<close>

definition dumpstate_usage :: "'h board \<Rightarrow> cint \<Rightarrow> 'h sys \<Rightarrow> outcome \<times> 'h sys" where
  "dumpstate_usage B exit_status s =
     (Exit exit_status,
      print_interface_usage
        (print [Printf (''%s %s <interface>: dump power system state'' @ nl)
                  [Arg_s (PROGNAME B), Arg_s (longc (commands ! DUMPSTATE))]] s))"

text \<open>The loop of \<^verbatim>\<open>dumpstate_vreg\<close> over the rails, from index \<open>i\<close> on.\<close>

fun vreg_rail_lines :: "nat \<Rightarrow> vreg_data list \<Rightarrow> printed list" where
  "vreg_rail_lines i [] = []"
| "vreg_rail_lines i (r # rs) =
     Printf (tab @ tab @ ''vregs[%d]: gpio %u, hold_time %u, active_high %u, def_val %u'' @ nl)
       [Arg_d (int i), Arg_u (gpio r), Arg_u (hold_time r),
        Arg_u (of_bool (active_high r)), Arg_u (of_bool (def_val r))]
     # vreg_rail_lines (Suc i) rs"

text \<open>
  \<^verbatim>\<open>dumpstate_vreg\<close>: what it prints. "(no vregs)" is printed for a NULL
  \<^verbatim>\<open>vregs\<close> pointer, not for an empty array. \<^verbatim>\<open>%u\<close> shows \<^verbatim>\<open>use_count\<close> as an
  unsigned 32-bit value.
\<close>

definition dumpstate_vreg :: "vreg \<Rightarrow> printed list" where
  "dumpstate_vreg vreg =
     [Printf (tab @ ''vreg: %s'' @ nl) [Arg_s (vreg_name vreg)]]
     @ (if vregs vreg = None then [Printf (tab @ tab @ ''(no vregs)'' @ nl) []] else [])
     @ [Printf (tab @ tab @ ''nr_vregs=%u'' @ nl) [Arg_u (nr_vregs vreg)],
        Printf (tab @ tab @ ''power_enabled=%s'' @ nl)
          [Arg_s (if power_enabled vreg then ''true'' else ''false'')],
        Printf (tab @ tab @ ''use_count=%u'' @ nl) [Arg_u (nat (use_count vreg mod 2 ^ 32))]]
     @ vreg_rail_lines 0 (rails vreg)"

text \<open>
  The labels of the enumerators. The C conditionals end in \<^verbatim>\<open>"<internal error>"\<close> for
  a value that is none of the enumerators; the datatypes have no such value.
\<close>

fun db_state_label :: "wd_debounce_state \<Rightarrow> string" where
  "db_state_label WD_ST_INVALID = ''invalid''"
| "db_state_label WD_ST_INACTIVE_DEBOUNCE = ''inactive debounce''"
| "db_state_label WD_ST_ACTIVE_DEBOUNCE = ''active debounce''"
| "db_state_label WD_ST_INACTIVE_STABLE = ''inactive stable''"
| "db_state_label WD_ST_ACTIVE_STABLE = ''active stable''"

fun hp_state_label :: "hotplug_state \<Rightarrow> string" where
  "hp_state_label HOTPLUG_ST_UNKNOWN = ''unknown''"
| "hp_state_label HOTPLUG_ST_PLUGGED = ''plugged''"
| "hp_state_label HOTPLUG_ST_UNPLUGGED = ''unplugged''"

fun if_order_label :: "ara_iface_order \<Rightarrow> string" where
  "if_order_label ARA_IFACE_ORDER_UNKNOWN = ''unknown''"
| "if_order_label ARA_IFACE_ORDER_PRIMARY = ''primary''"
| "if_order_label ARA_IFACE_ORDER_SECONDARY = ''secondary''"

text \<open>The lines of \<^verbatim>\<open>dumpstate_func\<close> that name the wake line.\<close>

definition wake_lines :: "interface \<Rightarrow> printed list" where
  "wake_lines iface =
     (if if_type iface = ARA_IFACE_TYPE_MODULE_PORT2 then
        [Printf (tab @ ''wake:'' @ nl) [],
         Printf (tab @ tab @ ''gpio: %u'' @ nl) [Arg_u (wake_gpio iface)],
         Printf (tab @ ''detect:'' @ nl) []]
      else [Printf (tab @ ''wake/detect:'' @ nl) []])"

text \<open>The lines of \<^verbatim>\<open>dumpstate_func\<close> for the detect line, the hotplug state and the order.\<close>

definition detect_lines :: "interface \<Rightarrow> printed list" where
  "detect_lines iface =
     (let db_state = db_state (detect_in iface);
          last_state = last_state (detect_in iface);
          hp_state = interface_get_hotplug_state_atomic iface
      in [Printf (tab @ tab @ ''gpio: %u'' @ nl) [Arg_u (wd_gpio (detect_in iface))],
          Printf (tab @ tab @ ''polarity: %s'' @ nl)
            [Arg_s (if polarity (detect_in iface) then ''high'' else ''low'')],
          Printf (tab @ tab @ ''db_state: %s'' @ nl) [Arg_s (db_state_label db_state)],
          Printf (tab @ tab @ ''last_state: %s'' @ nl) [Arg_s (db_state_label last_state)],
          Printf (tab @ ''hotplug state: %s'' @ nl) [Arg_s (hp_state_label hp_state)],
          Printf (tab @ ''order: %s'' @ nl) [Arg_s (if_order_label (if_order iface))]])"

text \<open>Everything \<^verbatim>\<open>dumpstate_func\<close> prints for one interface.\<close>

definition dumpstate_lines :: "'h board \<Rightarrow> interface \<Rightarrow> printed list" where
  "dumpstate_lines B iface =
     [Printf (''Interface %s:'' @ nl) [Arg_s (if_name iface)]]
     @ (case switch_portid iface of
          None \<Rightarrow>
            [Printf (tab @ ''switch_portid=<none>'' @ nl) [],
             Printf (tab @ ''interface ID=<unknown>'' @ nl) []]
        | Some p \<Rightarrow>
            [Printf (tab @ ''switch_portid=%u'' @ nl) [Arg_u p],
             Printf (tab @ ''interface ID=%u'' @ nl) [Arg_u (unat (id_by_portid_prim B p))]])
     @ dumpstate_vreg (vsys_vreg iface)
     @ dumpstate_vreg (refclk_vreg iface)
     @ (if module_port_prim B iface then wake_lines iface @ detect_lines iface else [])"

definition dumpstate_func :: "'h board \<Rightarrow> nat \<Rightarrow> cint \<Rightarrow> 'h sys \<Rightarrow> cint \<times> 'h sys" where
  "dumpstate_func B iface context s = (0, print (dumpstate_lines B (interfaces s ! iface)) s)"

definition cmd_dumpstate :: "'h board \<Rightarrow> string list \<Rightarrow> 'h sys \<Rightarrow> outcome \<times> 'h sys" where
  "cmd_dumpstate B argv s =
     (if length argv \<noteq> 3 then dumpstate_usage B EXIT_FAILURE s
      else returning (do_to_iface (argv ! 2) (dumpstate_func B) 0 s))"

subsection \<open>main\<close>

definition command_func ::
  "'h board \<Rightarrow> nat \<Rightarrow> string list \<Rightarrow> 'h sys \<Rightarrow> outcome \<times> 'h sys" where
  "command_func B i =
     (if i = HELP then cmd_usage B
      else if i = SET_POWER then cmd_set_power B
      else if i = WAKEOUT then cmd_wakeout B
      else if i = WAKEOUT_LENGTH then cmd_wakeout_length B
      else cmd_dumpstate B)"

fun find_command :: "string \<Rightarrow> nat \<Rightarrow> command list \<Rightarrow> nat option" where
  "find_command cmd_str i [] = None"
| "find_command cmd_str i (c # cs) =
     (if cmd_str = longc c \<or> cmd_str = [shortc c] then Some i
      else find_command cmd_str (Suc i) cs)"

definition power_main :: "'h board \<Rightarrow> string list \<Rightarrow> 'h sys \<Rightarrow> outcome \<times> 'h sys" where
  "power_main B argv s =
     (if length argv < 2 then usage B EXIT_FAILURE s
      else
        (case find_command (argv ! 1) 0 commands of
           Some i \<Rightarrow> command_func B i argv s
         | None \<Rightarrow> usage B EXIT_FAILURE s))"

section \<open>Vocabulary of the properties\<close>

text \<open>
  Calling the per-interface function on every interface of a list, one after the
  other, whatever it returns: the result codes in order and the final state.
\<close>

fun invoke_each ::
  "(nat \<Rightarrow> cint \<Rightarrow> 's \<Rightarrow> cint \<times> 's) \<Rightarrow> cint \<Rightarrow> nat list \<Rightarrow> 's \<Rightarrow> cint list \<times> 's" where
  "invoke_each f context [] s = ([], s)"
| "invoke_each f context (i # is) s =
     (case f i context s of
        (rc, s') \<Rightarrow> (case invoke_each f context is s' of (rcs, s'') \<Rightarrow> (rc # rcs, s'')))"

text \<open>All arguments of the calls of \<^verbatim>\<open>printf\<close>, in order.\<close>

fun printed_args :: "printed list \<Rightarrow> printf_arg list" where
  "printed_args [] = []"
| "printed_args (Printf fmt args # ps) = args @ printed_args ps"

section \<open>A sample board\<close>

text \<open>
  A decimal parser standing in for the C library's \<^verbatim>\<open>strtol(s, NULL, 10)\<close> on the
  sample board: an optional sign, then the digits up to the first other character,
  and 0 when there is no digit.
\<close>

fun digits_value :: "string \<Rightarrow> nat \<Rightarrow> nat" where
  "digits_value [] acc = acc"
| "digits_value (c # cs) acc =
     (if (48::nat) \<le> of_char c \<and> (of_char c :: nat) \<le> 57
      then digits_value cs (10 * acc + (of_char c - 48)) else acc)"

definition strtol_sample :: "string \<Rightarrow> cint" where
  "strtol_sample str =
     (case str of
        [] \<Rightarrow> 0
      | c # cs \<Rightarrow>
          if c = CHR ''-'' then - word_of_nat (digits_value cs 0)
          else if c = CHR ''+'' then word_of_nat (digits_value cs 0)
          else word_of_nat (digits_value str 0))"

definition vreg_named :: "string \<Rightarrow> nat \<Rightarrow> vreg" where
  "vreg_named n pin =
     \<lparr>vreg_name = n,
      vregs = Some [\<lparr>gpio = pin, hold_time = 50, active_high = True, def_val = False\<rparr>],
      power_enabled = False, use_count = 0\<rparr>"

definition iface_sample :: "string \<Rightarrow> nat option \<Rightarrow> ara_iface_type \<Rightarrow> nat \<Rightarrow> interface" where
  "iface_sample n port ty pin =
     \<lparr>if_name = n, switch_portid = port,
      vsys_vreg = vreg_named ''vsys'' pin, refclk_vreg = vreg_named ''refclk'' (pin + 1),
      if_type = ty,
      detect_in = \<lparr>wd_gpio = pin + 2, polarity = True,
                   db_state = WD_ST_ACTIVE_STABLE, last_state = WD_ST_ACTIVE_DEBOUNCE\<rparr>,
      wake_gpio = pin + 3, if_order = ARA_IFACE_ORDER_PRIMARY\<rparr>"

text \<open>
  Three interfaces: a module port with its own wake line, a built-in interface with no
  switch port, and a module port with a shared wake/detect line.
\<close>

definition ifaces_sample :: "interface list" where
  "ifaces_sample =
     [iface_sample ''module1'' (Some 3) ARA_IFACE_TYPE_MODULE_PORT2 100,
      iface_sample ''builtin'' None (ARA_IFACE_TYPE_OTHER 0) 200,
      iface_sample ''module2'' (Some 5) (ARA_IFACE_TYPE_OTHER 1) 300]"

definition count_up :: "vreg \<Rightarrow> vreg" where
  "count_up v = v\<lparr>power_enabled := True, use_count := use_count v + 1\<rparr>"

text \<open>
  On the sample board the hardware is the number of operations done so far; powering
  on or off fails with -19 on an interface without a switch port, and a wake pulse
  fails with -95 on an interface that is no module port.
\<close>

definition board_sample :: "nat board" where
  "board_sample =
     \<lparr>PROGNAME = ''power'',
      strtol_prim = strtol_sample,
      power_on_prim = (\<lambda>iface h.
        if switch_portid iface = None then (- 19, iface, h)
        else (0, iface\<lparr>vsys_vreg := count_up (vsys_vreg iface)\<rparr>, Suc h)),
      power_off_prim = (\<lambda>iface h.
        if switch_portid iface = None then (- 19, iface, h)
        else (0, iface\<lparr>vsys_vreg := (vsys_vreg iface)\<lparr>power_enabled := False, use_count := 0\<rparr>\<rparr>,
              Suc h)),
      wakeout_prim = (\<lambda>iface assert len h.
        if if_type iface = ARA_IFACE_TYPE_OTHER 0 then (- 95, iface, h) else (0, iface, Suc h)),
      module_port_prim = (\<lambda>iface. if_type iface \<noteq> ARA_IFACE_TYPE_OTHER 0),
      id_by_portid_prim = (\<lambda>p. word_of_nat (p + 1))\<rparr>"

definition sys_sample :: "nat sys" where
  "sys_sample = init_sys ifaces_sample 0"

section \<open>Verification\<close>

subsection \<open>Reference counting of a regulator group\<close>

lemma enable_use_count: "enable g h = (r, g', h') \<Longrightarrow> use_count g' = use_count g + 1"
  by (auto simp: enable_def Let_def split: if_splits prod.splits)

lemma enable_result: "enable g h = (r, g', h') \<Longrightarrow> r \<noteq> Some MisuseError"
  by (auto simp: enable_def Let_def split: if_splits prod.splits)

lemma enable_power:
  "enable g h = (r, g', h') \<Longrightarrow> 0 \<le> use_count g \<Longrightarrow> power_enabled g = (0 < use_count g)
   \<Longrightarrow> power_enabled g' = (0 < use_count g')"
  by (auto simp: enable_def Let_def split: if_splits prod.splits)

lemma disable_use_count:
  "disable g h = (r, g', h') \<Longrightarrow>
   use_count g' = (if r = Some MisuseError then use_count g else use_count g - 1)"
  by (auto simp: disable_def Let_def split: if_splits prod.splits)

lemma disable_nonneg: "disable g h = (r, g', h') \<Longrightarrow> 0 \<le> use_count g \<Longrightarrow> 0 \<le> use_count g'"
  by (auto simp: disable_def Let_def split: if_splits prod.splits)

lemma disable_power:
  "disable g h = (r, g', h') \<Longrightarrow> 0 \<le> use_count g \<Longrightarrow>
   power_enabled g = (0 < use_count g) \<Longrightarrow> power_enabled g' = (0 < use_count g')"
  by (auto simp: disable_def Let_def split: if_splits prod.splits)

lemma disable_at_zero: "use_count g = 0 \<Longrightarrow> disable g h = (Some MisuseError, g, h)"
  by (simp add: disable_def)

lemma vreg_calls_invariant:
  "vreg_calls cs g h = (rs, g', h') \<Longrightarrow> 0 \<le> use_count g \<Longrightarrow>
   power_enabled g = (0 < use_count g) \<Longrightarrow>
   0 \<le> use_count g' \<and> power_enabled g' = (0 < use_count g')"
proof (induction cs arbitrary: g h rs)
  case Nil
  then show ?case by simp
next
  case (Cons c cs)
  obtain r g1 h1 where step: "(case c of Enable \<Rightarrow> enable g h | Disable \<Rightarrow> disable g h) = (r, g1, h1)"
    by (metis prod_cases3)
  obtain rs1 where rest: "vreg_calls cs g1 h1 = (rs1, g', h')"
    using Cons.prems(1) step by (auto split: prod.splits)
  have nn: "0 \<le> use_count g1"
    using step Cons.prems(2) by (cases c) (auto dest: enable_use_count disable_nonneg)
  have pw: "power_enabled g1 = (0 < use_count g1)"
  proof (cases c)
    case Enable
    with step have "enable g h = (r, g1, h1)" by simp
    then show ?thesis using Cons.prems(2,3) by (rule enable_power)
  next
    case Disable
    with step have "disable g h = (r, g1, h1)" by simp
    then show ?thesis using Cons.prems(2,3) by (rule disable_power)
  qed
  show ?case using Cons.IH [OF rest nn pw] .
qed

lemma vreg_calls_count:
  "vreg_calls cs g h = (rs, g', h') \<Longrightarrow>
   use_count g' = use_count g + nr_calls Enable cs - (nr_calls Disable cs - nr_refused rs)"
proof (induction cs arbitrary: g h rs)
  case Nil
  then show ?case by (simp add: nr_calls_def nr_refused_def)
next
  case (Cons c cs)
  obtain r g1 h1 where step: "(case c of Enable \<Rightarrow> enable g h | Disable \<Rightarrow> disable g h) = (r, g1, h1)"
    by (metis prod_cases3)
  obtain rs1 where rest: "vreg_calls cs g1 h1 = (rs1, g', h')" and rs: "rs = r # rs1"
    using Cons.prems(1) step by (auto split: prod.splits)
  note ih = Cons.IH [OF rest]
  show ?case
  proof (cases c)
    case Enable
    with step have e: "enable g h = (r, g1, h1)" by simp
    show ?thesis
      using ih enable_use_count [OF e] enable_result [OF e] Enable rs
      by (simp add: nr_calls_def nr_refused_def)
  next
    case Disable
    with step have d: "disable g h = (r, g1, h1)" by simp
    show ?thesis
      using ih disable_use_count [OF d] Disable rs
      by (simp add: nr_calls_def nr_refused_def split: if_splits)
  qed
qed

lemma nr_refused_none: "Some MisuseError \<notin> set rs \<Longrightarrow> nr_refused rs = 0"
  by (induction rs) (auto simp: nr_refused_def)

lemma sample_faulty_run:
  "fst (vreg_calls [Disable, Enable, Enable, Disable] vreg_sample hw_faulty_sample) =
     [Some MisuseError, Some HardwareFault, None, None]"
  "nr_calls Enable [Disable, Enable, Enable, Disable] = 2"
  "nr_calls Disable [Disable, Enable, Enable, Disable] = 2"
  "nr_refused [Some MisuseError, Some HardwareFault, None, None] = 1"
  "use_count vreg_sample = 0" "\<not> power_enabled vreg_sample"
  by (simp_all add: enable_def disable_def rails_def gpio_write_def udelay_def
      vreg_sample_def hw_faulty_sample_def nr_calls_def nr_refused_def)

text \<open>
  C2, as the regulator group of section 4.1 behaves: a group starts at
  \<open>use_count = 0\<close> with power off. After any sequence of N \<open>enable\<close> and M
  \<open>disable\<close> calls, R of them \<open>disable\<close> calls made at \<open>use_count = 0\<close> and
  refused with \<open>MisuseError\<close>, \<open>use_count = N - (M - R)\<close>; so when no
  \<open>disable\<close> was refused, \<open>use_count = N - M\<close> and \<open>M \<le> N\<close>. After every
  sequence \<open>power_enabled\<close> holds exactly when \<open>use_count\<close> is positive,
  \<open>use_count\<close> is not negative, and a \<open>disable\<close> at \<open>use_count = 0\<close> reports
  \<open>MisuseError\<close> and leaves the group as it is.
\<close>

theorem vreg_use_count:
  assumes "use_count g = 0" and "\<not> power_enabled g"
    and "vreg_calls cs g h = (rs, g', h')"
  shows "use_count g' = nr_calls Enable cs - (nr_calls Disable cs - nr_refused rs)
    \<and> (Some MisuseError \<notin> set rs \<longrightarrow>
          use_count g' = nr_calls Enable cs - nr_calls Disable cs
          \<and> nr_calls Disable cs \<le> nr_calls Enable cs)
    \<and> power_enabled g' = (0 < use_count g')
    \<and> 0 \<le> use_count g'
    \<and> (use_count g' = 0 \<longrightarrow> disable g' h' = (Some MisuseError, g', h'))"
proof -
  have inv: "0 \<le> use_count g' \<and> power_enabled g' = (0 < use_count g')"
    using vreg_calls_invariant [OF assms(3)] assms(1,2) by simp
  have ct: "use_count g' = nr_calls Enable cs - (nr_calls Disable cs - nr_refused rs)"
    using vreg_calls_count [OF assms(3)] assms(1) by simp
  have "Some MisuseError \<notin> set rs \<longrightarrow>
          use_count g' = nr_calls Enable cs - nr_calls Disable cs
          \<and> nr_calls Disable cs \<le> nr_calls Enable cs"
    using ct inv by (auto simp: nr_refused_none)
  then show ?thesis using inv ct disable_at_zero by blast
qed

theorem vreg_use_count_witness:
  "use_count vreg_sample = 0 \<and> \<not> power_enabled vreg_sample
   \<and> fst (vreg_calls [Disable, Enable, Enable, Disable] vreg_sample hw_faulty_sample)
       = [Some MisuseError, Some HardwareFault, None, None]
   \<and> use_count (fst (snd (vreg_calls [Disable, Enable, Enable, Disable] vreg_sample
        hw_faulty_sample))) = 2 - (2 - 1)
   \<and> power_enabled (fst (snd (vreg_calls [Disable, Enable, Enable, Disable] vreg_sample
        hw_faulty_sample)))"
proof -
  let ?run = "vreg_calls [Disable, Enable, Enable, Disable] vreg_sample hw_faulty_sample"
  have run: "?run = (fst ?run, fst (snd ?run), snd (snd ?run))" by simp
  note t = vreg_use_count [OF sample_faulty_run(5,6) run]
  have ct: "use_count (fst (snd ?run)) = 2 - (2 - 1)"
    using t [THEN conjunct1] by (simp add: sample_faulty_run del: vreg_calls.simps)
  have pw: "power_enabled (fst (snd ?run)) = (0 < use_count (fst (snd ?run)))"
    by (rule t [THEN conjunct2, THEN conjunct2, THEN conjunct1])
  show ?thesis using ct pw sample_faulty_run by (simp del: vreg_calls.simps)
qed

text \<open>
  C2 as stated counts every call: with one \<open>disable\<close> (refused at \<open>use_count = 0\<close>)
  followed by one \<open>enable\<close>, N = M = 1 and \<open>use_count\<close> is 1, not N - M = 0.
\<close>

theorem vreg_disable_first_counterexample:
  "nr_calls Disable [Disable, Enable] \<le> nr_calls Enable [Disable, Enable]
   \<and> use_count (fst (snd (vreg_calls [Disable, Enable] vreg_sample hw_sample)))
       \<noteq> nr_calls Enable [Disable, Enable] - nr_calls Disable [Disable, Enable]"
  by (simp add: enable_def disable_def rails_def gpio_write_def udelay_def vreg_sample_def
      hw_sample_def nr_calls_def)

subsection \<open>Hotplug classifier\<close>

text \<open>
  C3: the hotplug state of an interface is UNKNOWN when the debounce state of its
  detect line is INVALID, INACTIVE\_DEBOUNCE or ACTIVE\_DEBOUNCE, UNPLUGGED when it is
  INACTIVE\_STABLE and PLUGGED when it is ACTIVE\_STABLE; this holds for every value of
  the debounce state, so for every reachable one.
\<close>

theorem hotplug_state_classified:
  "interface_get_hotplug_state_atomic iface =
     (case db_state (detect_in iface) of
        WD_ST_INVALID \<Rightarrow> HOTPLUG_ST_UNKNOWN
      | WD_ST_INACTIVE_DEBOUNCE \<Rightarrow> HOTPLUG_ST_UNKNOWN
      | WD_ST_ACTIVE_DEBOUNCE \<Rightarrow> HOTPLUG_ST_UNKNOWN
      | WD_ST_INACTIVE_STABLE \<Rightarrow> HOTPLUG_ST_UNPLUGGED
      | WD_ST_ACTIVE_STABLE \<Rightarrow> HOTPLUG_ST_PLUGGED)"
  by (cases "db_state (detect_in iface)") (simp_all add: interface_get_hotplug_state_atomic_def)

theorem hotplug_state_classified_witness:
  "interface_get_hotplug_state_atomic
     (iface_sample ''module1'' (Some 3) ARA_IFACE_TYPE_MODULE_PORT2 100) = HOTPLUG_ST_PLUGGED
   \<and> interface_get_hotplug_state_atomic
       ((iface_sample ''module1'' (Some 3) ARA_IFACE_TYPE_MODULE_PORT2 100)
          \<lparr>detect_in := \<lparr>wd_gpio = 1, polarity = True, db_state = WD_ST_ACTIVE_DEBOUNCE,
                          last_state = WD_ST_INACTIVE_STABLE\<rparr>\<rparr>) = HOTPLUG_ST_UNKNOWN"
  unfolding hotplug_state_classified by (simp add: iface_sample_def)

subsection \<open>Applying an operation to all interfaces\<close>

lemma invoke_each_length: "invoke_each f c is s = (rcs, s') \<Longrightarrow> length rcs = length is"
  by (induction "is" arbitrary: s rcs) (auto split: prod.splits)

lemma foreach_do_prefix:
  "is \<noteq> [] \<Longrightarrow>
   \<exists>k rcs s'. k < length is
     \<and> invoke_each f c (take (Suc k) is) s = (rcs, s')
     \<and> foreach_do f c is rc s = (Rc (last rcs), s')
     \<and> (\<forall>j<k. rcs ! j = 0)
     \<and> (last rcs \<noteq> 0 \<or> Suc k = length is)"
proof (induction "is" arbitrary: s rc)
  case Nil
  then show ?case by simp
next
  case (Cons i "is")
  obtain r s1 where step: "f i c s = (r, s1)" by (cases "f i c s")
  show ?case
  proof (cases "r \<noteq> 0 \<or> is = []")
    case True
    have "0 < length (i # is)" by simp
    moreover have "invoke_each f c (take (Suc 0) (i # is)) s = ([r], s1)"
      using step by simp
    moreover have "foreach_do f c (i # is) rc s = (Rc (last [r]), s1)"
      using step True by auto
    moreover have "\<forall>j<0::nat. [r] ! j = 0" by simp
    moreover have "last [r] \<noteq> 0 \<or> Suc 0 = length (i # is)"
      using True by auto
    ultimately show ?thesis by blast
  next
    case False
    then have r0: "r = 0" and ne: "is \<noteq> []" by auto
    from Cons.IH [OF ne, where s = s1 and rc = "Rc r"] obtain k rcs s' where
      k: "k < length is" and
      inv: "invoke_each f c (take (Suc k) is) s1 = (rcs, s')" and
      res: "foreach_do f c is (Rc r) s1 = (Rc (last rcs), s')" and
      zeros: "\<forall>j<k. rcs ! j = 0" and
      stop: "last rcs \<noteq> 0 \<or> Suc k = length is"
      by blast
    have len: "length rcs = Suc k"
      using invoke_each_length [OF inv] k by simp
    then have rcs_ne: "rcs \<noteq> []" by auto
    have "Suc k < length (i # is)" using k by simp
    moreover have "invoke_each f c (take (Suc (Suc k)) (i # is)) s = (r # rcs, s')"
      using step inv by simp
    moreover have "foreach_do f c (i # is) rc s = (Rc (last (r # rcs)), s')"
      using step r0 res rcs_ne by simp
    moreover have "\<forall>j<Suc k. (r # rcs) ! j = 0"
      using zeros r0 by (simp add: nth_Cons split: nat.splits)
    moreover have "last (r # rcs) \<noteq> 0 \<or> Suc (Suc k) = length (i # is)"
      using stop rcs_ne by simp
    ultimately show ?thesis by blast
  qed
qed

lemma take_upt0: "Suc k \<le> n \<Longrightarrow> take (Suc k) [0..<n] = [0..<Suc k]"
  by (metis add_0 take_upt)

lemma do_to_iface_foreach:
  "iface_name = ''all'' \<or> iface_name = ''ALL'' \<Longrightarrow>
   do_to_iface iface_name iface_func context s =
     foreach_do iface_func context [0..<length (interfaces s)] Indeterminate s"
  by (auto simp: do_to_iface_def)

lemmas sample_defs = sys_sample_def init_sys_def ifaces_sample_def iface_sample_def
  vreg_named_def board_sample_def count_up_def

lemmas console_defs = do_to_iface_def set_power_func_def wakeout_func_def dumpstate_func_def
  interface_power_on_atomic_def interface_power_off_atomic_def
  interface_generate_wakeout_atomic_def interface_get_by_name_def

lemma sample_nonempty: "interfaces sys_sample \<noteq> []"
  by (simp add: sample_defs)

lemma sample_power_all:
  "do_to_iface ''all'' (set_power_func board_sample) 1 sys_sample =
     (Rc (- 19),
      sys_sample\<lparr>interfaces := ifaces_sample[0 := (ifaces_sample ! 0)\<lparr>vsys_vreg := count_up (vsys_vreg (ifaces_sample ! 0))\<rparr>],
                 hw := 1, calls := [Power_on 0, Power_on 1]\<rparr>)"
  by (simp add: sample_defs console_defs upt_rec)

text \<open>
  C1: when the name is "all" or "ALL" and the table is not empty, \<^verbatim>\<open>do_to_iface\<close>
  with any per-interface function (so with those of set\_power, wakeout and dumpstate)
  is exactly the calls of the function on the interfaces 0 to k in table order, for
  some k: every call before the k-th returned 0, the result is what the k-th call
  returned, and either that is nonzero (no later interface is called) or the k-th
  interface is the last one; so if every call returns 0 the result is 0.
\<close>

theorem do_to_iface_all:
  assumes "iface_name = ''all'' \<or> iface_name = ''ALL''" and "interfaces s \<noteq> []"
  shows "\<exists>k rcs s'. k < length (interfaces s)
     \<and> invoke_each iface_func context [0..<Suc k] s = (rcs, s')
     \<and> do_to_iface iface_name iface_func context s = (Rc (last rcs), s')
     \<and> (\<forall>j<k. rcs ! j = 0)
     \<and> (last rcs \<noteq> 0 \<or> Suc k = length (interfaces s))"
proof -
  have ne: "[0..<length (interfaces s)] \<noteq> []" using assms(2) by simp
  from foreach_do_prefix [OF ne, where f = iface_func and c = "context" and s = s and rc = Indeterminate]
  obtain k rcs s' where k: "k < length [0..<length (interfaces s)]" and
    inv: "invoke_each iface_func context (take (Suc k) [0..<length (interfaces s)]) s = (rcs, s')" and
    res: "foreach_do iface_func context [0..<length (interfaces s)] Indeterminate s = (Rc (last rcs), s')" and
    zeros: "\<forall>j<k. rcs ! j = 0" and
    stop: "last rcs \<noteq> 0 \<or> Suc k = length [0..<length (interfaces s)]"
    by blast
  have k': "k < length (interfaces s)" using k by simp
  have tk: "take (Suc k) [0..<length (interfaces s)] = [0..<Suc k]"
    using k' by (intro take_upt0) simp
  have "invoke_each iface_func context [0..<Suc k] s = (rcs, s')"
    using inv unfolding tk .
  moreover have "do_to_iface iface_name iface_func context s = (Rc (last rcs), s')"
    by (subst do_to_iface_foreach [OF assms(1)]) (rule res)
  moreover have "last rcs \<noteq> 0 \<or> Suc k = length (interfaces s)"
    using stop by simp
  ultimately show ?thesis using k' zeros by blast
qed

theorem do_to_iface_all_witness:
  "interfaces sys_sample \<noteq> []
   \<and> (\<exists>k rcs s'. k < length (interfaces sys_sample)
        \<and> invoke_each (set_power_func board_sample) 1 [0..<Suc k] sys_sample = (rcs, s')
        \<and> do_to_iface ''all'' (set_power_func board_sample) 1 sys_sample = (Rc (last rcs), s')
        \<and> (\<forall>j<k. rcs ! j = 0)
        \<and> (last rcs \<noteq> 0 \<or> Suc k = length (interfaces sys_sample)))
   \<and> fst (do_to_iface ''all'' (set_power_func board_sample) 1 sys_sample) = Rc (- 19)
   \<and> calls (snd (do_to_iface ''all'' (set_power_func board_sample) 1 sys_sample))
       = [Power_on 0, Power_on 1]"
  using do_to_iface_all [of "''all''" sys_sample "set_power_func board_sample" 1]
    sample_nonempty sample_power_all
  by simp

subsection \<open>Looking an interface up by name\<close>

lemma name_index_None: "name_index xs n = None \<longleftrightarrow> (\<forall>x\<in>set xs. if_name x \<noteq> n)"
  by (induction xs) auto

lemma name_index_Some:
  "name_index xs n = Some i \<Longrightarrow>
   i < length xs \<and> if_name (xs ! i) = n \<and> (\<forall>j<i. if_name (xs ! j) \<noteq> n)"
proof (induction xs arbitrary: i)
  case Nil
  then show ?case by simp
next
  case (Cons x xs)
  show ?case
  proof (cases "if_name x = n")
    case True
    with Cons.prems show ?thesis by simp
  next
    case False
    with Cons.prems obtain i' where i': "name_index xs n = Some i'" and i: "i = Suc i'"
      by auto
    from Cons.IH [OF i'] False show ?thesis
      unfolding i by (auto simp: nth_Cons split: nat.splits)
  qed
qed

lemma print_frame:
  "interfaces (print out s) = interfaces s" "hw (print out s) = hw s"
  "wakeout_length_default (print out s) = wakeout_length_default s"
  "calls (print out s) = calls s" "console (print out s) = console s @ out"
  by (simp_all add: print_def)

lemma print_interface_usage_frame:
  "interfaces (print_interface_usage s) = interfaces s" "hw (print_interface_usage s) = hw s"
  "wakeout_length_default (print_interface_usage s) = wakeout_length_default s"
  "calls (print_interface_usage s) = calls s"
  by (simp_all add: print_interface_usage_def print_frame)

lemma do_to_iface_not_found:
  "iface_name \<noteq> ''all'' \<Longrightarrow> iface_name \<noteq> ''ALL'' \<Longrightarrow>
   name_index (interfaces s) iface_name = None \<Longrightarrow>
   do_to_iface iface_name iface_func context s =
     (Rc (- EINVAL),
      print_interface_usage (print [Printf (''Invalid interface: %s'' @ nl) [Arg_s iface_name]] s))"
  by (simp add: do_to_iface_def interface_get_by_name_def)

lemma do_to_iface_found:
  "iface_name \<noteq> ''all'' \<Longrightarrow> iface_name \<noteq> ''ALL'' \<Longrightarrow>
   name_index (interfaces s) iface_name = Some i \<Longrightarrow>
   do_to_iface iface_name iface_func context s =
     (Rc (fst (iface_func i context s)), snd (iface_func i context s))"
  by (simp add: do_to_iface_def interface_get_by_name_def split: prod.splits)

lemma sample_names:
  "\<forall>x\<in>set (interfaces sys_sample). if_name x \<noteq> ''MODULE1''"
  "\<forall>x\<in>set (interfaces sys_sample). if_name x \<noteq> ''All''"
  "interface_get_by_name sys_sample ''module2'' = Some 2"
  "calls sys_sample = []" "wakeout_length_default sys_sample = - 1"
  by (simp_all add: sample_defs interface_get_by_name_def)

text \<open>
  C4: when the name is neither "all" nor "ALL" and no interface of the table has exactly
  that name (string equality, so case-sensitive), \<^verbatim>\<open>do_to_iface\<close> returns
  \<^verbatim>\<open>-EINVAL\<close>, a negative value, whatever the per-interface function is: the
  function is not called. set\_power, wakeout (with and without a length) and dumpstate
  return the same, and the state differs from the one before only in what was printed:
  the interface table, the hardware, the calls into interface.c and the default wakeout
  length are as before.
\<close>

theorem unknown_interface_not_found:
  assumes "iface_name \<noteq> ''all''" and "iface_name \<noteq> ''ALL''"
    and "\<forall>x\<in>set (interfaces s). if_name x \<noteq> iface_name"
  defines "s' \<equiv>
    print_interface_usage (print [Printf (''Invalid interface: %s'' @ nl) [Arg_s iface_name]] s)"
  shows "do_to_iface iface_name iface_func context s = (Rc (- EINVAL), s')
    \<and> cmd_set_power B [a0, a1, iface_name, v] s = (Return (Rc (- EINVAL)), s')
    \<and> cmd_wakeout B [a0, a1, iface_name] s = (Return (Rc (- EINVAL)), s')
    \<and> cmd_wakeout B [a0, a1, iface_name, v] s = (Return (Rc (- EINVAL)), s')
    \<and> cmd_dumpstate B [a0, a1, iface_name] s = (Return (Rc (- EINVAL)), s')
    \<and> sint (- EINVAL) < 0
    \<and> interfaces s' = interfaces s \<and> hw s' = hw s \<and> calls s' = calls s
    \<and> wakeout_length_default s' = wakeout_length_default s"
proof -
  have none: "name_index (interfaces s) iface_name = None"
    using assms(3) by (simp add: name_index_None)
  note nf = do_to_iface_not_found [OF assms(1,2) none, folded s'_def]
  have "cmd_set_power B [a0, a1, iface_name, v] s = (Return (Rc (- EINVAL)), s')"
    by (simp add: cmd_set_power_def returning_def nf)
  moreover have "cmd_wakeout B [a0, a1, iface_name] s = (Return (Rc (- EINVAL)), s')"
    by (simp add: cmd_wakeout_def returning_def nf)
  moreover have "cmd_wakeout B [a0, a1, iface_name, v] s = (Return (Rc (- EINVAL)), s')"
    by (simp add: cmd_wakeout_def returning_def nf)
  moreover have "cmd_dumpstate B [a0, a1, iface_name] s = (Return (Rc (- EINVAL)), s')"
    by (simp add: cmd_dumpstate_def returning_def nf)
  moreover have "sint (- EINVAL) < 0"
    by (simp add: EINVAL_def)
  moreover have "interfaces s' = interfaces s \<and> hw s' = hw s \<and> calls s' = calls s
    \<and> wakeout_length_default s' = wakeout_length_default s"
    by (simp add: s'_def print_interface_usage_frame print_frame)
  ultimately show ?thesis using nf by simp
qed

theorem unknown_interface_not_found_witness:
  "''MODULE1'' \<noteq> ''all'' \<and> ''MODULE1'' \<noteq> ''ALL''
   \<and> fst (cmd_set_power board_sample [''power'', ''p'', ''MODULE1'', ''1''] sys_sample)
       = Return (Rc (- 22))
   \<and> fst (cmd_dumpstate board_sample [''power'', ''d'', ''MODULE1''] sys_sample)
       = Return (Rc (- 22))
   \<and> interfaces (snd (cmd_set_power board_sample [''power'', ''p'', ''MODULE1'', ''1''] sys_sample))
       = interfaces sys_sample
   \<and> calls (snd (cmd_set_power board_sample [''power'', ''p'', ''MODULE1'', ''1''] sys_sample)) = []"
proof -
  have ne: "''MODULE1'' \<noteq> ''all''" "''MODULE1'' \<noteq> ''ALL''" by simp_all
  note t = unknown_interface_not_found [OF ne sample_names(1), where B = board_sample
      and ?a0.0 = "''power''" and v = "''1''"]
  show ?thesis
    using t [where ?a1.0 = "''p''"] t [where ?a1.0 = "''d''"] sample_names(4)
    by (simp add: EINVAL_def)
qed

text \<open>
  C9: the names "all" and "ALL", and only these, run the loop over the whole table.
  Any other name, "All" included, is looked up: when no interface has exactly that name
  the result is \<^verbatim>\<open>-EINVAL\<close>, and when \<open>i\<close> is the first interface with that name
  the per-interface function is called on \<open>i\<close> alone.
\<close>

theorem only_all_selects_all:
  "(iface_name = ''all'' \<or> iface_name = ''ALL'' \<longrightarrow>
      do_to_iface iface_name iface_func context s =
        foreach_do iface_func context [0..<length (interfaces s)] Indeterminate s)
   \<and> (iface_name \<noteq> ''all'' \<and> iface_name \<noteq> ''ALL'' \<longrightarrow>
       ((\<forall>x\<in>set (interfaces s). if_name x \<noteq> iface_name) \<longrightarrow>
          do_to_iface iface_name iface_func context s =
            (Rc (- EINVAL),
             print_interface_usage
               (print [Printf (''Invalid interface: %s'' @ nl) [Arg_s iface_name]] s)))
       \<and> (\<forall>i. i < length (interfaces s) \<and> if_name (interfaces s ! i) = iface_name
               \<and> (\<forall>j<i. if_name (interfaces s ! j) \<noteq> iface_name) \<longrightarrow>
          do_to_iface iface_name iface_func context s =
            (Rc (fst (iface_func i context s)), snd (iface_func i context s))))"
proof (intro conjI impI allI)
  assume "iface_name = ''all'' \<or> iface_name = ''ALL''"
  then show "do_to_iface iface_name iface_func context s =
        foreach_do iface_func context [0..<length (interfaces s)] Indeterminate s"
    by (auto simp: do_to_iface_def)
next
  assume "iface_name \<noteq> ''all'' \<and> iface_name \<noteq> ''ALL''"
    and "\<forall>x\<in>set (interfaces s). if_name x \<noteq> iface_name"
  then show "do_to_iface iface_name iface_func context s =
            (Rc (- EINVAL),
             print_interface_usage
               (print [Printf (''Invalid interface: %s'' @ nl) [Arg_s iface_name]] s))"
    by (simp add: do_to_iface_not_found name_index_None)
next
  fix i
  assume ne: "iface_name \<noteq> ''all'' \<and> iface_name \<noteq> ''ALL''"
    and i: "i < length (interfaces s) \<and> if_name (interfaces s ! i) = iface_name
               \<and> (\<forall>j<i. if_name (interfaces s ! j) \<noteq> iface_name)"
  have "name_index (interfaces s) iface_name \<noteq> None"
    using i by (auto simp: name_index_None)
  then obtain k where k: "name_index (interfaces s) iface_name = Some k" by auto
  from name_index_Some [OF k] i have "k = i"
    by (metis linorder_neqE_nat)
  with k ne show "do_to_iface iface_name iface_func context s =
            (Rc (fst (iface_func i context s)), snd (iface_func i context s))"
    by (simp add: do_to_iface_found)
qed

theorem only_all_selects_all_witness:
  "''All'' \<noteq> ''all'' \<and> ''All'' \<noteq> ''ALL''
   \<and> fst (do_to_iface ''All'' (set_power_func board_sample) 1 sys_sample) = Rc (- 22)
   \<and> calls (snd (do_to_iface ''All'' (set_power_func board_sample) 1 sys_sample)) = []"
  using only_all_selects_all [of "''All''" "set_power_func board_sample" 1 sys_sample]
    sample_names(2,4)
  by (simp add: EINVAL_def print_interface_usage_frame print_frame)

subsection \<open>Interface power control\<close>

lemma set_power_func_calls:
  "calls (snd (set_power_func B i en s)) =
     calls s @ [if en \<noteq> 0 then Power_on i else Power_off i]"
  by (simp add: set_power_func_def interface_power_on_atomic_def
      interface_power_off_atomic_def split: prod.splits)

lemma set_power_func_result:
  "fst (set_power_func B i en s) =
     fst ((if en \<noteq> 0 then power_on_prim B else power_off_prim B) (interfaces s ! i) (hw s))"
  by (simp add: set_power_func_def interface_power_on_atomic_def
      interface_power_off_atomic_def split: prod.splits)

lemma invoke_each_set_power_calls:
  "invoke_each (set_power_func B) en is s = (rcs, s') \<Longrightarrow>
   calls s' = calls s @ map (if en \<noteq> 0 then Power_on else Power_off) is"
proof (induction "is" arbitrary: s rcs)
  case Nil
  then show ?case by simp
next
  case (Cons i "is")
  obtain r s1 where step: "set_power_func B i en s = (r, s1)"
    by (cases "set_power_func B i en s")
  obtain rcs1 where rest: "invoke_each (set_power_func B) en is s1 = (rcs1, s')"
    using Cons.prems step by (auto split: prod.splits)
  have "calls s1 = calls s @ [if en \<noteq> 0 then Power_on i else Power_off i]"
    using set_power_func_calls [of B i en s] step by simp
  then show ?case using Cons.IH [OF rest] by simp
qed

text \<open>
  C5: \<^verbatim>\<open>set_power_func\<close> on an interface makes exactly one call into interface.c:
  \<^verbatim>\<open>interface_power_on_atomic\<close> on that interface when the argument is nonzero,
  \<^verbatim>\<open>interface_power_off_atomic\<close> on it when the argument is zero, and its result is
  the result of that primitive. For a named interface the verb returns that result, and
  for "all" it makes one such call for each interface it visits, in table order.
\<close>

theorem set_power_calls_primitive_once:
  "set_power_func B i en s =
     (if en \<noteq> 0 then interface_power_on_atomic B i s
      else interface_power_off_atomic B i s)
   \<and> calls (snd (set_power_func B i en s)) =
       calls s @ [if en \<noteq> 0 then Power_on i else Power_off i]
   \<and> fst (set_power_func B i en s) =
       fst ((if en \<noteq> 0 then power_on_prim B else power_off_prim B)
              (interfaces s ! i) (hw s))
   \<and> (iface_name \<noteq> ''all'' \<and> iface_name \<noteq> ''ALL''
        \<and> interface_get_by_name s iface_name = Some i \<longrightarrow>
       cmd_set_power B [a0, a1, iface_name, v] s =
         (Return (Rc (fst (set_power_func B i (strtol_prim B v) s))),
          snd (set_power_func B i (strtol_prim B v) s)))
   \<and> ((iface_name = ''all'' \<or> iface_name = ''ALL'') \<and> interfaces s \<noteq> [] \<longrightarrow>
       (\<exists>k<length (interfaces s).
          calls (snd (cmd_set_power B [a0, a1, iface_name, v] s)) =
            calls s @ map (if strtol_prim B v \<noteq> 0 then Power_on else Power_off) [0..<Suc k]))"
proof (intro conjI impI)
  show "set_power_func B i en s =
     (if en \<noteq> 0 then interface_power_on_atomic B i s
      else interface_power_off_atomic B i s)"
    by (simp add: set_power_func_def)
  show "calls (snd (set_power_func B i en s)) =
       calls s @ [if en \<noteq> 0 then Power_on i else Power_off i]"
    by (rule set_power_func_calls)
  show "fst (set_power_func B i en s) =
       fst ((if en \<noteq> 0 then power_on_prim B else power_off_prim B)
              (interfaces s ! i) (hw s))"
    by (rule set_power_func_result)
next
  assume "iface_name \<noteq> ''all'' \<and> iface_name \<noteq> ''ALL''
        \<and> interface_get_by_name s iface_name = Some i"
  then show "cmd_set_power B [a0, a1, iface_name, v] s =
         (Return (Rc (fst (set_power_func B i (strtol_prim B v) s))),
          snd (set_power_func B i (strtol_prim B v) s))"
    by (simp add: cmd_set_power_def returning_def do_to_iface_found interface_get_by_name_def Let_def)
next
  assume a: "(iface_name = ''all'' \<or> iface_name = ''ALL'') \<and> interfaces s \<noteq> []"
  let ?n = "length (interfaces s)"
  let ?e = "strtol_prim B v"
  have ne: "[0..<?n] \<noteq> []" using a by simp
  from foreach_do_prefix [OF ne, where f = "set_power_func B" and c = ?e and s = s
      and rc = Indeterminate]
  obtain k rcs s' where k: "k < length [0..<?n]" and
    inv: "invoke_each (set_power_func B) ?e (take (Suc k) [0..<?n]) s = (rcs, s')" and
    res: "foreach_do (set_power_func B) ?e [0..<?n] Indeterminate s = (Rc (last rcs), s')"
    by blast
  have k': "k < ?n" using k by simp
  have tk: "take (Suc k) [0..<?n] = [0..<Suc k]"
    using k' by (intro take_upt0) simp
  have "do_to_iface iface_name (set_power_func B) ?e s = (Rc (last rcs), s')"
    using a by (subst do_to_iface_foreach) (simp_all add: res)
  then have "snd (cmd_set_power B [a0, a1, iface_name, v] s) = s'"
    by (simp add: cmd_set_power_def returning_def Let_def)
  moreover have "calls s' = calls s @ map (if ?e \<noteq> 0 then Power_on else Power_off) [0..<Suc k]"
    using invoke_each_set_power_calls [OF inv] unfolding tk .
  ultimately show "\<exists>k<?n. calls (snd (cmd_set_power B [a0, a1, iface_name, v] s)) =
            calls s @ map (if ?e \<noteq> 0 then Power_on else Power_off) [0..<Suc k]"
    using k' by auto
qed

theorem set_power_calls_primitive_once_witness:
  "interface_get_by_name sys_sample ''module2'' = Some 2
   \<and> cmd_set_power board_sample [''power'', ''p'', ''module2'', ''1''] sys_sample =
       (Return (Rc (fst (set_power_func board_sample 2 (strtol_prim board_sample ''1'') sys_sample))),
        snd (set_power_func board_sample 2 (strtol_prim board_sample ''1'') sys_sample))
   \<and> calls (snd (set_power_func board_sample 2 1 sys_sample)) = [Power_on 2]
   \<and> calls (snd (set_power_func board_sample 2 0 sys_sample)) = [Power_off 2]"
proof -
  note t = set_power_calls_primitive_once [where B = board_sample and s = sys_sample
      and i = 2 and iface_name = "''module2''" and ?a0.0 = "''power''" and ?a1.0 = "''p''"
      and v = "''1''"]
  have on: "calls (snd (set_power_func board_sample 2 1 sys_sample)) = calls sys_sample @ [Power_on 2]"
    using t [where en = 1, THEN conjunct2, THEN conjunct1] by simp
  have off: "calls (snd (set_power_func board_sample 2 0 sys_sample)) = calls sys_sample @ [Power_off 2]"
    using t [where en = 0, THEN conjunct2, THEN conjunct1] by simp
  have named: "cmd_set_power board_sample [''power'', ''p'', ''module2'', ''1''] sys_sample =
       (Return (Rc (fst (set_power_func board_sample 2 (strtol_prim board_sample ''1'') sys_sample))),
        snd (set_power_func board_sample 2 (strtol_prim board_sample ''1'') sys_sample))"
    using t [where en = 1, THEN conjunct2, THEN conjunct2, THEN conjunct2, THEN conjunct1]
      sample_names(3) by simp
  show ?thesis using on off named sample_names(3,4) by simp
qed

lemma foreach_do_same_calls:
  "(\<And>i s. f i c s = f i c' s) \<Longrightarrow> foreach_do f c is rc s = foreach_do f c' is rc s"
  by (induction "is" arbitrary: rc s) (simp_all split: prod.splits)

lemma set_power_func_zeroness:
  "(c \<noteq> 0) = (c' \<noteq> 0) \<Longrightarrow> set_power_func B i c s = set_power_func B i c' s"
  by (auto simp: set_power_func_def)

lemma do_to_iface_set_power_zeroness:
  assumes "(c \<noteq> 0) = (c' \<noteq> 0)"
  shows "do_to_iface n (set_power_func B) c s = do_to_iface n (set_power_func B) c' s"
proof -
  have "foreach_do (set_power_func B) c is rc s = foreach_do (set_power_func B) c' is rc s"
    for "is" rc
    by (rule foreach_do_same_calls) (rule set_power_func_zeroness [OF assms])
  then show ?thesis
    by (simp add: do_to_iface_def set_power_func_zeroness [OF assms] split: option.splits)
qed

lemma cmd_set_power_named:
  assumes "iface_name \<noteq> ''all''" and "iface_name \<noteq> ''ALL''"
    and "interface_get_by_name s iface_name = Some i"
  shows "cmd_set_power B [a0, a1, iface_name, v] s =
     (Return (Rc (fst (set_power_func B i (strtol_prim B v) s))),
      snd (set_power_func B i (strtol_prim B v) s))"
  using assms
  by (simp add: cmd_set_power_def returning_def do_to_iface_found interface_get_by_name_def
      Let_def)

lemma cmd_set_power_all_calls:
  assumes "iface_name = ''all'' \<or> iface_name = ''ALL''" and "interfaces s \<noteq> []"
  shows "\<exists>k<length (interfaces s).
     calls (snd (cmd_set_power B [a0, a1, iface_name, v] s)) =
       calls s @ map (if strtol_prim B v \<noteq> 0 then Power_on else Power_off) [0..<Suc k]"
proof -
  let ?n = "length (interfaces s)"
  let ?e = "strtol_prim B v"
  have ne: "[0..<?n] \<noteq> []" using assms(2) by simp
  from foreach_do_prefix [OF ne, where f = "set_power_func B" and c = ?e and s = s
      and rc = Indeterminate]
  obtain k rcs s' where k: "k < length [0..<?n]" and
    inv: "invoke_each (set_power_func B) ?e (take (Suc k) [0..<?n]) s = (rcs, s')" and
    res: "foreach_do (set_power_func B) ?e [0..<?n] Indeterminate s = (Rc (last rcs), s')"
    by blast
  have k': "k < ?n" using k by simp
  have tk: "take (Suc k) [0..<?n] = [0..<Suc k]"
    using k' by (intro take_upt0) simp
  have "do_to_iface iface_name (set_power_func B) ?e s = (Rc (last rcs), s')"
    by (subst do_to_iface_foreach [OF assms(1)]) (rule res)
  then have "snd (cmd_set_power B [a0, a1, iface_name, v] s) = s'"
    by (simp add: cmd_set_power_def returning_def Let_def)
  moreover have "calls s' = calls s @ map (if ?e \<noteq> 0 then Power_on else Power_off) [0..<Suc k]"
    using invoke_each_set_power_calls [OF inv] unfolding tk .
  ultimately show ?thesis using k' by auto
qed

lemma sample_strtol:
  "strtol_prim board_sample ''2'' = 2" "strtol_prim board_sample ''-1'' = - 1"
  "strtol_prim board_sample ''on'' = 0" "strtol_prim board_sample [] = 0"
  by (simp_all add: board_sample_def strtol_sample_def)

text \<open>
  C10: with four arguments \<^verbatim>\<open>cmd_set_power\<close> never takes the usage exit, whatever
  the fourth argument is, and what it does depends on the value \<^verbatim>\<open>strtol\<close> gives
  for that argument only through whether the value is zero. On a named interface, a
  nonzero value makes the verb exactly one call of \<^verbatim>\<open>interface_power_on_atomic\<close> on
  that interface, and zero (as for every string \<^verbatim>\<open>strtol\<close> parses to 0) exactly one
  call of \<^verbatim>\<open>interface_power_off_atomic\<close>; the verb returns the result of that call.
  On "all" every interface it visits gets that same call, in table order.
\<close>

theorem set_power_argument_never_rejected:
  "(\<forall>x. fst (cmd_set_power B [a0, a1, iface_name, v] s) \<noteq> Exit x)
   \<and> ((strtol_prim B v \<noteq> 0) = (strtol_prim B v' \<noteq> 0) \<longrightarrow>
        cmd_set_power B [a0, a1, iface_name, v] s = cmd_set_power B [a0, a1, iface_name, v'] s)
   \<and> (iface_name \<noteq> ''all'' \<and> iface_name \<noteq> ''ALL''
        \<and> interface_get_by_name s iface_name = Some i \<longrightarrow>
       (strtol_prim B v \<noteq> 0 \<longrightarrow>
          cmd_set_power B [a0, a1, iface_name, v] s =
            (Return (Rc (fst (interface_power_on_atomic B i s))),
             snd (interface_power_on_atomic B i s))
          \<and> calls (snd (cmd_set_power B [a0, a1, iface_name, v] s)) = calls s @ [Power_on i])
       \<and> (strtol_prim B v = 0 \<longrightarrow>
          cmd_set_power B [a0, a1, iface_name, v] s =
            (Return (Rc (fst (interface_power_off_atomic B i s))),
             snd (interface_power_off_atomic B i s))
          \<and> calls (snd (cmd_set_power B [a0, a1, iface_name, v] s)) = calls s @ [Power_off i]))
   \<and> ((iface_name = ''all'' \<or> iface_name = ''ALL'') \<and> interfaces s \<noteq> [] \<longrightarrow>
       (\<exists>k<length (interfaces s).
          calls (snd (cmd_set_power B [a0, a1, iface_name, v] s)) =
            calls s @ map (if strtol_prim B v \<noteq> 0 then Power_on else Power_off) [0..<Suc k]))"
proof (intro conjI impI allI)
  fix x
  show "fst (cmd_set_power B [a0, a1, iface_name, v] s) \<noteq> Exit x"
    by (simp add: cmd_set_power_def returning_def Let_def)
next
  assume "(strtol_prim B v \<noteq> 0) = (strtol_prim B v' \<noteq> 0)"
  then show "cmd_set_power B [a0, a1, iface_name, v] s =
      cmd_set_power B [a0, a1, iface_name, v'] s"
    by (simp add: cmd_set_power_def Let_def
        do_to_iface_set_power_zeroness [of "strtol_prim B v" "strtol_prim B v'"])
next
  assume a: "iface_name \<noteq> ''all'' \<and> iface_name \<noteq> ''ALL''
        \<and> interface_get_by_name s iface_name = Some i"
  then have named: "cmd_set_power B [a0, a1, iface_name, v] s =
     (Return (Rc (fst (set_power_func B i (strtol_prim B v) s))),
      snd (set_power_func B i (strtol_prim B v) s))"
    by (intro cmd_set_power_named) simp_all
  {
    assume nz: "strtol_prim B v \<noteq> 0"
    then have f: "set_power_func B i (strtol_prim B v) s = interface_power_on_atomic B i s"
      by (simp add: set_power_func_def)
    show "cmd_set_power B [a0, a1, iface_name, v] s =
            (Return (Rc (fst (interface_power_on_atomic B i s))),
             snd (interface_power_on_atomic B i s))"
      using named f by simp
    show "calls (snd (cmd_set_power B [a0, a1, iface_name, v] s)) = calls s @ [Power_on i]"
      using named nz set_power_func_calls [of B i "strtol_prim B v" s] by simp
  }
  {
    assume z: "strtol_prim B v = 0"
    then have f: "set_power_func B i (strtol_prim B v) s = interface_power_off_atomic B i s"
      by (simp add: set_power_func_def)
    show "cmd_set_power B [a0, a1, iface_name, v] s =
            (Return (Rc (fst (interface_power_off_atomic B i s))),
             snd (interface_power_off_atomic B i s))"
      using named f by simp
    show "calls (snd (cmd_set_power B [a0, a1, iface_name, v] s)) = calls s @ [Power_off i]"
      using named z set_power_func_calls [of B i "strtol_prim B v" s] by simp
  }
next
  assume "(iface_name = ''all'' \<or> iface_name = ''ALL'') \<and> interfaces s \<noteq> []"
  then show "\<exists>k<length (interfaces s).
          calls (snd (cmd_set_power B [a0, a1, iface_name, v] s)) =
            calls s @ map (if strtol_prim B v \<noteq> 0 then Power_on else Power_off) [0..<Suc k]"
    by (intro cmd_set_power_all_calls) simp_all
qed

theorem set_power_argument_never_rejected_witness:
  "strtol_prim board_sample ''2'' \<noteq> 0 \<and> strtol_prim board_sample ''-1'' \<noteq> 0
   \<and> strtol_prim board_sample ''on'' = 0
   \<and> interface_get_by_name sys_sample ''module2'' = Some 2
   \<and> calls (snd (cmd_set_power board_sample [''power'', ''p'', ''module2'', ''2''] sys_sample))
       = [Power_on 2]
   \<and> calls (snd (cmd_set_power board_sample [''power'', ''p'', ''module2'', ''-1''] sys_sample))
       = [Power_on 2]
   \<and> calls (snd (cmd_set_power board_sample [''power'', ''p'', ''module2'', ''on''] sys_sample))
       = [Power_off 2]
   \<and> cmd_set_power board_sample [''power'', ''p'', ''module2'', ''-1''] sys_sample
       = cmd_set_power board_sample [''power'', ''p'', ''module2'', ''2''] sys_sample"
proof -
  have nz: "strtol_prim board_sample ''2'' \<noteq> 0" "strtol_prim board_sample ''-1'' \<noteq> 0"
    and z: "strtol_prim board_sample ''on'' = 0"
    by (simp_all add: sample_strtol)
  have found: "''module2'' \<noteq> ''all'' \<and> ''module2'' \<noteq> ''ALL''
      \<and> interface_get_by_name sys_sample ''module2'' = Some 2"
    using sample_names(3) by simp
  have same: "(strtol_prim board_sample ''-1'' \<noteq> 0) = (strtol_prim board_sample ''2'' \<noteq> 0)"
    using nz by simp
  note t = set_power_argument_never_rejected [where B = board_sample and s = sys_sample
      and i = 2 and iface_name = "''module2''" and ?a0.0 = "''power''" and ?a1.0 = "''p''"]
  have on2: "calls (snd (cmd_set_power board_sample [''power'', ''p'', ''module2'', ''2'']
      sys_sample)) = calls sys_sample @ [Power_on 2]"
    by (rule t [where v = "''2''", THEN conjunct2, THEN conjunct2, THEN conjunct1, THEN mp,
          OF found, THEN conjunct1, THEN mp, OF nz(1), THEN conjunct2])
  have on1: "calls (snd (cmd_set_power board_sample [''power'', ''p'', ''module2'', ''-1'']
      sys_sample)) = calls sys_sample @ [Power_on 2]"
    by (rule t [where v = "''-1''", THEN conjunct2, THEN conjunct2, THEN conjunct1, THEN mp,
          OF found, THEN conjunct1, THEN mp, OF nz(2), THEN conjunct2])
  have off: "calls (snd (cmd_set_power board_sample [''power'', ''p'', ''module2'', ''on'']
      sys_sample)) = calls sys_sample @ [Power_off 2]"
    by (rule t [where v = "''on''", THEN conjunct2, THEN conjunct2, THEN conjunct1, THEN mp,
          OF found, THEN conjunct2, THEN mp, OF z, THEN conjunct2])
  have eq: "cmd_set_power board_sample [''power'', ''p'', ''module2'', ''-1''] sys_sample
       = cmd_set_power board_sample [''power'', ''p'', ''module2'', ''2''] sys_sample"
    by (rule t [where v = "''-1''" and v' = "''2''", THEN conjunct2, THEN conjunct1, THEN mp,
          OF same])
  show ?thesis
    using nz z sample_names(3,4) on2 on1 off eq by simp
qed

subsection \<open>Wake out and its default length\<close>

lemma wakeout_func_calls:
  "calls (snd (wakeout_func B i len s)) = calls s @ [Generate_wakeout i False len]"
  by (simp add: wakeout_func_def interface_generate_wakeout_atomic_def split: prod.splits)

text \<open>
  C7: \<^verbatim>\<open>wakeout_length_default\<close> starts at -1. Without a length argument
  \<^verbatim>\<open>cmd_wakeout\<close> passes the stored default to \<^verbatim>\<open>wakeout_func\<close>; with a length
  argument it passes the value \<^verbatim>\<open>strtol\<close> gives for it, and the stored default plays
  no part. \<^verbatim>\<open>wakeout_func\<close> makes one call of
  \<^verbatim>\<open>interface_generate_wakeout_atomic\<close> with that length. \<^verbatim>\<open>cmd_wakeout_length\<close>
  with an argument stores the parsed value and without one leaves the default as it is;
  both return 0.
\<close>

theorem wakeout_length_used:
  "wakeout_length_default (init_sys ifs h) = - 1
   \<and> cmd_wakeout B [a0, a1, iface_name] s =
       returning (do_to_iface iface_name (wakeout_func B) (wakeout_length_default s) s)
   \<and> cmd_wakeout B [a0, a1, iface_name, len] s =
       returning (do_to_iface iface_name (wakeout_func B) (strtol_prim B len) s)
   \<and> wakeout_func B i l s = interface_generate_wakeout_atomic B i False l s
   \<and> calls (snd (wakeout_func B i l s)) = calls s @ [Generate_wakeout i False l]
   \<and> (iface_name \<noteq> ''all'' \<and> iface_name \<noteq> ''ALL''
        \<and> interface_get_by_name s iface_name = Some i \<longrightarrow>
       calls (snd (cmd_wakeout B [a0, a1, iface_name] s)) =
         calls s @ [Generate_wakeout i False (wakeout_length_default s)]
       \<and> calls (snd (cmd_wakeout B [a0, a1, iface_name, len] s)) =
           calls s @ [Generate_wakeout i False (strtol_prim B len)])
   \<and> cmd_wakeout_length B [a0, a1, len] s =
       (Return (Rc 0),
        print [Printf (''%s %s: WAKEOUT pulse length is set to %d'' @ nl)
                 [Arg_s a0, Arg_s a1, Arg_d (sint (strtol_prim B len))]]
          (s\<lparr>wakeout_length_default := strtol_prim B len\<rparr>))
   \<and> cmd_wakeout_length B [a0, a1] s =
       (Return (Rc 0),
        print [Printf (''%s %s: WAKEOUT pulse length is set to %d'' @ nl)
                 [Arg_s a0, Arg_s a1, Arg_d (sint (wakeout_length_default s))]] s)
   \<and> wakeout_length_default (snd (cmd_wakeout_length B [a0, a1, len] s)) = strtol_prim B len
   \<and> wakeout_length_default (snd (cmd_wakeout_length B [a0, a1] s)) = wakeout_length_default s"
proof (intro conjI impI)
  show "wakeout_length_default (init_sys ifs h) = - 1"
    by (simp add: init_sys_def)
  show "cmd_wakeout B [a0, a1, iface_name] s =
       returning (do_to_iface iface_name (wakeout_func B) (wakeout_length_default s) s)"
    by (simp add: cmd_wakeout_def Let_def)
  show "cmd_wakeout B [a0, a1, iface_name, len] s =
       returning (do_to_iface iface_name (wakeout_func B) (strtol_prim B len) s)"
    by (simp add: cmd_wakeout_def Let_def)
  show "wakeout_func B i l s = interface_generate_wakeout_atomic B i False l s"
    by (simp add: wakeout_func_def)
  show "calls (snd (wakeout_func B i l s)) = calls s @ [Generate_wakeout i False l]"
    by (rule wakeout_func_calls)
  show "cmd_wakeout_length B [a0, a1, len] s =
       (Return (Rc 0),
        print [Printf (''%s %s: WAKEOUT pulse length is set to %d'' @ nl)
                 [Arg_s a0, Arg_s a1, Arg_d (sint (strtol_prim B len))]]
          (s\<lparr>wakeout_length_default := strtol_prim B len\<rparr>))"
    by (simp add: cmd_wakeout_length_def Let_def)
  show "cmd_wakeout_length B [a0, a1] s =
       (Return (Rc 0),
        print [Printf (''%s %s: WAKEOUT pulse length is set to %d'' @ nl)
                 [Arg_s a0, Arg_s a1, Arg_d (sint (wakeout_length_default s))]] s)"
    by (simp add: cmd_wakeout_length_def Let_def)
  show "wakeout_length_default (snd (cmd_wakeout_length B [a0, a1, len] s)) = strtol_prim B len"
    by (simp add: cmd_wakeout_length_def Let_def print_def)
  show "wakeout_length_default (snd (cmd_wakeout_length B [a0, a1] s)) = wakeout_length_default s"
    by (simp add: cmd_wakeout_length_def Let_def print_def)
next
  assume a: "iface_name \<noteq> ''all'' \<and> iface_name \<noteq> ''ALL''
        \<and> interface_get_by_name s iface_name = Some i"
  then have f: "do_to_iface iface_name (wakeout_func B) l s =
      (Rc (fst (wakeout_func B i l s)), snd (wakeout_func B i l s))" for l
    by (simp add: do_to_iface_found interface_get_by_name_def)
  show "calls (snd (cmd_wakeout B [a0, a1, iface_name] s)) =
         calls s @ [Generate_wakeout i False (wakeout_length_default s)]"
    by (simp add: cmd_wakeout_def Let_def returning_def f wakeout_func_calls)
  show "calls (snd (cmd_wakeout B [a0, a1, iface_name, len] s)) =
           calls s @ [Generate_wakeout i False (strtol_prim B len)]"
    by (simp add: cmd_wakeout_def Let_def returning_def f wakeout_func_calls)
qed

lemma sample_wakeout_length:
  "strtol_prim board_sample ''500'' = 500" "strtol_prim board_sample ''250'' = 250"
  by (simp_all add: board_sample_def strtol_sample_def)

theorem wakeout_length_used_witness:
  "interface_get_by_name sys_sample ''module2'' = Some 2
   \<and> calls (snd (cmd_wakeout board_sample [''power'', ''w'', ''module2''] sys_sample))
       = [Generate_wakeout 2 False (- 1)]
   \<and> calls (snd (cmd_wakeout board_sample [''power'', ''w'', ''module2'', ''250''] sys_sample))
       = [Generate_wakeout 2 False 250]
   \<and> wakeout_length_default
        (snd (cmd_wakeout_length board_sample [''power'', ''l'', ''500''] sys_sample)) = 500
   \<and> wakeout_length_default
        (snd (cmd_wakeout_length board_sample [''power'', ''l''] sys_sample)) = - 1"
proof -
  have ne: "''module2'' \<noteq> ''all'' \<and> ''module2'' \<noteq> ''ALL''
      \<and> interface_get_by_name sys_sample ''module2'' = Some 2"
    using sample_names(3) by simp
  note t = wakeout_length_used [where B = board_sample and s = sys_sample and i = 2
      and iface_name = "''module2''" and ?a0.0 = "''power''"]
  have c: "calls (snd (cmd_wakeout board_sample [''power'', ''w'', ''module2''] sys_sample)) =
         calls sys_sample @ [Generate_wakeout 2 False (wakeout_length_default sys_sample)]
       \<and> calls (snd (cmd_wakeout board_sample [''power'', ''w'', ''module2'', ''250''] sys_sample)) =
           calls sys_sample @ [Generate_wakeout 2 False (strtol_prim board_sample ''250'')]"
    by (rule t [where ?a1.0 = "''w''" and len = "''250''", THEN conjunct2, THEN conjunct2,
          THEN conjunct2, THEN conjunct2, THEN conjunct2, THEN conjunct1, THEN mp, OF ne])
  have d: "wakeout_length_default
        (snd (cmd_wakeout_length board_sample [''power'', ''l'', ''500''] sys_sample))
       = strtol_prim board_sample ''500''
     \<and> wakeout_length_default
        (snd (cmd_wakeout_length board_sample [''power'', ''l''] sys_sample))
       = wakeout_length_default sys_sample"
    by (rule t [where ?a1.0 = "''l''" and len = "''500''", THEN conjunct2, THEN conjunct2,
          THEN conjunct2, THEN conjunct2, THEN conjunct2, THEN conjunct2, THEN conjunct2,
          THEN conjunct2])
  show ?thesis
    using c d sample_names(3,4,5) sample_wakeout_length by simp
qed

subsection \<open>Dump system state\<close>

lemma dumpstate_func_eq:
  "dumpstate_func B i c s = (0, s\<lparr>console := console s @ dumpstate_lines B (interfaces s ! i)\<rparr>)"
  by (simp add: dumpstate_func_def print_def)

lemma foreach_do_dumpstate:
  "is \<noteq> [] \<Longrightarrow>
   foreach_do (dumpstate_func B) c is rc s =
     (Rc 0, s\<lparr>console := console s @ concat (map (\<lambda>i. dumpstate_lines B (interfaces s ! i)) is)\<rparr>)"
proof (induction "is" arbitrary: rc s)
  case Nil
  then show ?case by simp
next
  case (Cons i "is")
  show ?case
  proof (cases "is = []")
    case True
    then show ?thesis by (simp add: dumpstate_func_eq)
  next
    case False
    from Cons.IH [OF False] show ?thesis by (simp add: dumpstate_func_eq)
  qed
qed

text \<open>
  C8: \<^verbatim>\<open>dumpstate_func\<close> returns 0 and only prints: the interface table (every
  field of every interface, with both regulator groups and the debounce state the
  hotplug state is read from), the hardware, the calls into interface.c and the default
  wakeout length are as before. So dumpstate over "all", on a table that is not empty,
  returns 0 after printing every interface of the table in order.
\<close>

theorem dumpstate_read_only:
  "dumpstate_func B i c s =
     (0, s\<lparr>console := console s @ dumpstate_lines B (interfaces s ! i)\<rparr>)
   \<and> interfaces (snd (dumpstate_func B i c s)) = interfaces s
   \<and> hw (snd (dumpstate_func B i c s)) = hw s
   \<and> wakeout_length_default (snd (dumpstate_func B i c s)) = wakeout_length_default s
   \<and> calls (snd (dumpstate_func B i c s)) = calls s
   \<and> ((iface_name = ''all'' \<or> iface_name = ''ALL'') \<and> interfaces s \<noteq> [] \<longrightarrow>
       cmd_dumpstate B [a0, a1, iface_name] s =
         (Return (Rc 0),
          s\<lparr>console := console s @ concat (map (dumpstate_lines B) (interfaces s))\<rparr>))"
proof (intro conjI impI)
  show "dumpstate_func B i c s =
     (0, s\<lparr>console := console s @ dumpstate_lines B (interfaces s ! i)\<rparr>)"
    by (rule dumpstate_func_eq)
  show "interfaces (snd (dumpstate_func B i c s)) = interfaces s"
    "hw (snd (dumpstate_func B i c s)) = hw s"
    "wakeout_length_default (snd (dumpstate_func B i c s)) = wakeout_length_default s"
    "calls (snd (dumpstate_func B i c s)) = calls s"
    by (simp_all add: dumpstate_func_eq)
next
  assume a: "(iface_name = ''all'' \<or> iface_name = ''ALL'') \<and> interfaces s \<noteq> []"
  then have ne: "[0..<length (interfaces s)] \<noteq> []" by simp
  have m: "map (\<lambda>i. dumpstate_lines B (interfaces s ! i)) [0..<length (interfaces s)]
      = map (dumpstate_lines B) (interfaces s)"
    by (rule nth_equalityI) simp_all
  have "do_to_iface iface_name (dumpstate_func B) 0 s =
      foreach_do (dumpstate_func B) 0 [0..<length (interfaces s)] Indeterminate s"
    using a by (intro do_to_iface_foreach) simp
  also have "\<dots> = (Rc 0, s\<lparr>console := console s
      @ concat (map (\<lambda>i. dumpstate_lines B (interfaces s ! i)) [0..<length (interfaces s)])\<rparr>)"
    by (rule foreach_do_dumpstate [OF ne])
  finally have "do_to_iface iface_name (dumpstate_func B) 0 s =
      (Rc 0, s\<lparr>console := console s @ concat (map (dumpstate_lines B) (interfaces s))\<rparr>)"
    unfolding m .
  then show "cmd_dumpstate B [a0, a1, iface_name] s =
         (Return (Rc 0),
          s\<lparr>console := console s @ concat (map (dumpstate_lines B) (interfaces s))\<rparr>)"
    by (simp add: cmd_dumpstate_def returning_def)
qed

theorem dumpstate_read_only_witness:
  "interfaces sys_sample \<noteq> []
   \<and> fst (cmd_dumpstate board_sample [''power'', ''d'', ''all''] sys_sample) = Return (Rc 0)
   \<and> interfaces (snd (cmd_dumpstate board_sample [''power'', ''d'', ''all''] sys_sample))
       = interfaces sys_sample
   \<and> console (snd (cmd_dumpstate board_sample [''power'', ''d'', ''all''] sys_sample))
       = dumpstate_lines board_sample (ifaces_sample ! 0)
         @ dumpstate_lines board_sample (ifaces_sample ! 1)
         @ dumpstate_lines board_sample (ifaces_sample ! 2)"
proof -
  have ne: "(''all'' = ''all'' \<or> ''all'' = ''ALL'') \<and> interfaces sys_sample \<noteq> []"
    using sample_nonempty by simp
  have "cmd_dumpstate board_sample [''power'', ''d'', ''all''] sys_sample =
         (Return (Rc 0),
          sys_sample\<lparr>console := console sys_sample
             @ concat (map (dumpstate_lines board_sample) (interfaces sys_sample))\<rparr>)"
    by (rule dumpstate_read_only [where B = board_sample and s = sys_sample
          and iface_name = "''all''", THEN conjunct2, THEN conjunct2, THEN conjunct2,
          THEN conjunct2, THEN conjunct2, THEN mp, OF ne])
  then show ?thesis
    using sample_nonempty by (simp add: sys_sample_def init_sys_def ifaces_sample_def)
qed

text \<open>
  C6, as the code prints: for a module port \<^verbatim>\<open>dumpstate_func\<close> prints the interface
  name, the switch port and both regulator groups, then the wake heading, and then the
  gpio and polarity of \<^verbatim>\<open>detect_in\<close>, the current and the previous debounce state,
  the hotplug state and the interface order. \<^verbatim>\<open>wake_gpio\<close> is printed, under a heading
  of its own, when the interface type is \<^verbatim>\<open>ARA_IFACE_TYPE_MODULE_PORT2\<close>; for every
  other module port the heading is "wake/detect:" and \<^verbatim>\<open>wake_gpio\<close> is not printed.
\<close>

theorem dumpstate_module_port:
  assumes "module_port_prim B (interfaces s ! i)"
  shows "console (snd (dumpstate_func B i c s)) =
     console s
     @ [Printf (''Interface %s:'' @ nl) [Arg_s (if_name (interfaces s ! i))]]
     @ (case switch_portid (interfaces s ! i) of
          None \<Rightarrow>
            [Printf (tab @ ''switch_portid=<none>'' @ nl) [],
             Printf (tab @ ''interface ID=<unknown>'' @ nl) []]
        | Some p \<Rightarrow>
            [Printf (tab @ ''switch_portid=%u'' @ nl) [Arg_u p],
             Printf (tab @ ''interface ID=%u'' @ nl) [Arg_u (unat (id_by_portid_prim B p))]])
     @ dumpstate_vreg (vsys_vreg (interfaces s ! i))
     @ dumpstate_vreg (refclk_vreg (interfaces s ! i))
     @ (if if_type (interfaces s ! i) = ARA_IFACE_TYPE_MODULE_PORT2 then
          [Printf (tab @ ''wake:'' @ nl) [],
           Printf (tab @ tab @ ''gpio: %u'' @ nl) [Arg_u (wake_gpio (interfaces s ! i))],
           Printf (tab @ ''detect:'' @ nl) []]
        else [Printf (tab @ ''wake/detect:'' @ nl) []])
     @ [Printf (tab @ tab @ ''gpio: %u'' @ nl) [Arg_u (wd_gpio (detect_in (interfaces s ! i)))],
        Printf (tab @ tab @ ''polarity: %s'' @ nl)
          [Arg_s (if polarity (detect_in (interfaces s ! i)) then ''high'' else ''low'')],
        Printf (tab @ tab @ ''db_state: %s'' @ nl)
          [Arg_s (db_state_label (db_state (detect_in (interfaces s ! i))))],
        Printf (tab @ tab @ ''last_state: %s'' @ nl)
          [Arg_s (db_state_label (last_state (detect_in (interfaces s ! i))))],
        Printf (tab @ ''hotplug state: %s'' @ nl)
          [Arg_s (hp_state_label (interface_get_hotplug_state_atomic (interfaces s ! i)))],
        Printf (tab @ ''order: %s'' @ nl) [Arg_s (if_order_label (if_order (interfaces s ! i)))]]"
  using assms
  by (simp add: dumpstate_func_eq dumpstate_lines_def wake_lines_def detect_lines_def Let_def)

lemma sample_module2:
  "module_port_prim board_sample (interfaces sys_sample ! 2)"
  "if_type (interfaces sys_sample ! 2) \<noteq> ARA_IFACE_TYPE_MODULE_PORT2"
  "console sys_sample = []"
  by (simp_all add: sample_defs)

theorem dumpstate_module_port_witness:
  "module_port_prim board_sample (interfaces sys_sample ! 2)
   \<and> console (snd (dumpstate_func board_sample 2 0 sys_sample)) =
       [Printf (''Interface %s:'' @ nl) [Arg_s ''module2''],
        Printf (tab @ ''switch_portid=%u'' @ nl) [Arg_u 5],
        Printf (tab @ ''interface ID=%u'' @ nl) [Arg_u 6]]
       @ dumpstate_vreg (vreg_named ''vsys'' 300)
       @ dumpstate_vreg (vreg_named ''refclk'' 301)
       @ [Printf (tab @ ''wake/detect:'' @ nl) [],
          Printf (tab @ tab @ ''gpio: %u'' @ nl) [Arg_u 302],
          Printf (tab @ tab @ ''polarity: %s'' @ nl) [Arg_s ''high''],
          Printf (tab @ tab @ ''db_state: %s'' @ nl) [Arg_s ''active stable''],
          Printf (tab @ tab @ ''last_state: %s'' @ nl) [Arg_s ''active debounce''],
          Printf (tab @ ''hotplug state: %s'' @ nl) [Arg_s ''plugged''],
          Printf (tab @ ''order: %s'' @ nl) [Arg_s ''primary'']]"
  using dumpstate_module_port [OF sample_module2(1), of 0] sample_module2(1)
  by (simp add: sys_sample_def init_sys_def ifaces_sample_def iface_sample_def
      board_sample_def interface_get_hotplug_state_atomic_def)

text \<open>
  C6 as stated fails on a module port whose type is not
  \<^verbatim>\<open>ARA_IFACE_TYPE_MODULE_PORT2\<close>: on the sample board the third interface is one,
  and no \<^verbatim>\<open>printf\<close> of its dump has its \<^verbatim>\<open>wake_gpio\<close> as an argument.
\<close>

theorem dumpstate_wake_gpio_counterexample:
  "module_port_prim board_sample (interfaces sys_sample ! 2)
   \<and> Arg_u (wake_gpio (interfaces sys_sample ! 2))
       \<notin> set (printed_args (console (snd (dumpstate_func board_sample 2 0 sys_sample))))"
  by (simp add: sample_defs dumpstate_func_def print_def dumpstate_lines_def wake_lines_def
      detect_lines_def dumpstate_vreg_def nr_vregs_def rails_def Let_def)

end
